theory Spec2Isabelle
  imports Main "HOL-Library.Word" "HOL-Library.Finite_Map" "HOL-Library.Char_ord"
    "HOL-Library.List_Lexorder"
begin

unbundle bit_operations_syntax

section \<open>The Go library functions the server calls\<close>

text \<open>
  A Go string is a sequence of bytes, here a \<open>string\<close> (a list of 8-bit \<open>char\<close>s).
  A rune is a Unicode code point, here a \<open>nat\<close>. The server calls
  \<open>strings.TrimRight\<close>, \<open>strings.Fields\<close>, \<open>strings.ToUpper\<close>,
  \<open>bufio.Reader.ReadString\<close>, \<open>fmt.Sprintf\<close> and \<open>json.Marshal\<close>; they are
  modelled below by what they return.
\<close>

subsection \<open>unicode/utf8\<close>

definition RuneError :: nat where
  "RuneError = 0xFFFD"

text \<open>The table \<open>first\<close> of package utf8: information about the first byte of an encoding.\<close>

definition first :: "nat \<Rightarrow> nat" where
  "first b =
     (if b < 0x80 then 0xF0
      else if b < 0xC2 then 0xF1
      else if b < 0xE0 then 0x02
      else if b = 0xE0 then 0x13
      else if b < 0xED then 0x03
      else if b = 0xED then 0x23
      else if b < 0xF0 then 0x03
      else if b = 0xF0 then 0x34
      else if b < 0xF4 then 0x04
      else if b = 0xF4 then 0x44
      else 0xF1)"

text \<open>The table \<open>acceptRanges\<close>: the range allowed for the second byte.\<close>

definition acceptRanges :: "nat \<Rightarrow> nat \<times> nat" where
  "acceptRanges i =
     (if i = 0 then (0x80, 0xBF)
      else if i = 1 then (0xA0, 0xBF)
      else if i = 2 then (0x80, 0x9F)
      else if i = 3 then (0x90, 0xBF)
      else if i = 4 then (0x80, 0x8F)
      else (0, 0))"

text \<open>
  \<open>utf8.DecodeRuneInString\<close>: the first rune of \<open>s\<close> and its width in bytes; an invalid
  encoding gives \<open>(RuneError, 1)\<close>. Every index read is below the length checked before it.
\<close>

definition DecodeRuneInString :: "string \<Rightarrow> nat \<times> nat" where
  "DecodeRuneInString s =
     (let n = length s in
      if n < 1 then (RuneError, 0) else
      let s0 = of_char (s ! 0); x = first s0 in
      if x \<ge> 0xF0 then ((if x AND 1 = 1 then RuneError else s0), 1) else
      let sz = x AND 7; accept = acceptRanges (drop_bit 4 x) in
      if n < sz then (RuneError, 1) else
      let s1 = of_char (s ! 1) in
      if s1 < fst accept \<or> snd accept < s1 then (RuneError, 1) else
      if sz \<le> 2 then (push_bit 6 (s0 AND 0x1F) OR (s1 AND 0x3F), 2) else
      let s2 = of_char (s ! 2) in
      if s2 < 0x80 \<or> 0xBF < s2 then (RuneError, 1) else
      if sz \<le> 3 then
        (push_bit 12 (s0 AND 0x0F) OR push_bit 6 (s1 AND 0x3F) OR (s2 AND 0x3F), 3) else
      let s3 = of_char (s ! 3) in
      if s3 < 0x80 \<or> 0xBF < s3 then (RuneError, 1) else
      (push_bit 18 (s0 AND 0x07) OR push_bit 12 (s1 AND 0x3F) OR push_bit 6 (s2 AND 0x3F)
         OR (s3 AND 0x3F), 4))"

lemma DecodeRuneInString_width: "s \<noteq> [] \<Longrightarrow> 1 \<le> snd (DecodeRuneInString s)"
  by (cases s) (simp_all add: DecodeRuneInString_def Let_def)

text \<open>
  Go's \<open>for i, r := range s\<close>: the runes of \<open>s\<close> in order, each with the bytes it was
  decoded from.
\<close>

function range_string :: "string \<Rightarrow> (nat \<times> string) list" where
  "range_string [] = []"
| "range_string (c # cs) =
     (let (r, w) = DecodeRuneInString (c # cs)
      in (r, take w (c # cs)) # range_string (drop w (c # cs)))"
  by pat_completeness auto
termination
proof (relation "measure length")
  show "wf (measure length)" by simp
next
  fix c cs x r w
  assume "x = DecodeRuneInString (c # cs)" and "(r, w) = x"
  then have "w = snd (DecodeRuneInString (c # cs))" by (metis snd_conv)
  with DecodeRuneInString_width [of "c # cs"] have "1 \<le> w" by simp
  then show "(drop w (c # cs), c # cs) \<in> measure length" by simp
qed

text \<open>
  \<open>utf8.EncodeRune\<close> (as \<open>strings.Builder.WriteRune\<close> uses it): a surrogate or a value
  beyond U+10FFFF is written as \<open>RuneError\<close>.
\<close>

definition EncodeRune :: "nat \<Rightarrow> string" where
  "EncodeRune r0 =
     (if r0 \<le> 0x7F then [char_of r0]
      else if r0 \<le> 0x7FF then
        [char_of (0xC0 OR drop_bit 6 r0), char_of (0x80 OR (r0 AND 0x3F))]
      else
        let r = (if r0 > 0x10FFFF \<or> (0xD800 \<le> r0 \<and> r0 \<le> 0xDFFF) then RuneError else r0) in
        if r \<le> 0xFFFF then
          [char_of (0xE0 OR drop_bit 12 r), char_of (0x80 OR (drop_bit 6 r AND 0x3F)),
           char_of (0x80 OR (r AND 0x3F))]
        else
          [char_of (0xF0 OR drop_bit 18 r), char_of (0x80 OR (drop_bit 12 r AND 0x3F)),
           char_of (0x80 OR (drop_bit 6 r AND 0x3F)), char_of (0x80 OR (r AND 0x3F))])"

subsection \<open>unicode\<close>

text \<open>\<open>unicode.IsSpace\<close>: the Latin-1 cases of its switch, then the \<open>White_Space\<close> table.\<close>

definition IsSpace :: "nat \<Rightarrow> bool" where
  "IsSpace r =
     (if r \<le> 0xFF then
        r = 0x09 \<or> r = 0x0A \<or> r = 0x0B \<or> r = 0x0C \<or> r = 0x0D \<or> r = 0x20 \<or> r = 0x85 \<or> r = 0xA0
      else
        r = 0x1680 \<or> (0x2000 \<le> r \<and> r \<le> 0x200A) \<or> r = 0x2028 \<or> r = 0x2029 \<or> r = 0x202F
          \<or> r = 0x205F \<or> r = 0x3000)"

text \<open>
  \<open>unicode.ToUpper\<close>: ASCII is handled inline; every other rune goes through the case
  tables of package unicode. Those tables are not part of the repository, so the mapping
  they define on the runes above U+007F is the parameter \<open>caseTable\<close>.
\<close>

definition unicode_ToUpper :: "(nat \<Rightarrow> nat) \<Rightarrow> nat \<Rightarrow> nat" where
  "unicode_ToUpper caseTable r =
     (if r \<le> 0x7F then (if 0x61 \<le> r \<and> r \<le> 0x7A then r - 0x20 else r)
      else caseTable r)"

subsection \<open>strings\<close>

text \<open>
  \<open>strings.FieldsFunc\<close>: the maximal runs of runes that do not satisfy \<open>f\<close>. The Go loop
  keeps the start index of the field it is in (negative when in none); here \<open>start\<close> holds
  the bytes of that field so far.
\<close>

fun FieldsFunc_loop :: "(nat \<Rightarrow> bool) \<Rightarrow> (nat \<times> string) list \<Rightarrow> string option \<Rightarrow> string list" where
  "FieldsFunc_loop f [] start = (case start of Some fld \<Rightarrow> [fld] | None \<Rightarrow> [])"
| "FieldsFunc_loop f ((rune, bs) # rest) start =
     (if f rune then
        (case start of
           Some fld \<Rightarrow> fld # FieldsFunc_loop f rest None
         | None \<Rightarrow> FieldsFunc_loop f rest None)
      else
        (case start of
           Some fld \<Rightarrow> FieldsFunc_loop f rest (Some (fld @ bs))
         | None \<Rightarrow> FieldsFunc_loop f rest (Some bs)))"

definition FieldsFunc :: "string \<Rightarrow> (nat \<Rightarrow> bool) \<Rightarrow> string list" where
  "FieldsFunc s f = FieldsFunc_loop f (range_string s) None"

text \<open>
  \<open>strings.Fields\<close> splits around runs of white space. Its fast path for a string of
  ASCII bytes only returns what \<open>FieldsFunc s unicode.IsSpace\<close> returns there.
\<close>

definition Fields :: "string \<Rightarrow> string list" where
  "Fields s = FieldsFunc s IsSpace"

text \<open>
  \<open>strings.Map\<close>. The first loop of the Go function skips the runes that the mapping
  leaves as they are (an invalid byte, read as \<open>RuneError\<close> of width 1, is never
  skipped); the bytes skipped are copied to the result. From the first other rune on,
  the image of every rune is written with \<open>WriteRune\<close>.
\<close>

definition strings_Map :: "(nat \<Rightarrow> nat) \<Rightarrow> string \<Rightarrow> string" where
  "strings_Map mapping s =
     (let unchanged = (\<lambda>(c, bs). mapping c = c \<and> \<not> (c = RuneError \<and> length bs = 1));
          rs = range_string s
      in concat (map snd (takeWhile unchanged rs))
           @ concat (map (\<lambda>(c, bs). EncodeRune (mapping c)) (dropWhile unchanged rs)))"

text \<open>
  \<open>strings.ToUpper\<close>. Its fast path for a string of ASCII bytes only returns what
  \<open>Map(unicode.ToUpper, s)\<close> returns there.
\<close>

definition ToUpper :: "(nat \<Rightarrow> nat) \<Rightarrow> string \<Rightarrow> string" where
  "ToUpper caseTable s = strings_Map (unicode_ToUpper caseTable) s"

text \<open>\<open>strings.TrimRight\<close> for a cutset of ASCII bytes: the trailing bytes in it are removed.\<close>

definition TrimRight :: "string \<Rightarrow> string \<Rightarrow> string" where
  "TrimRight s cutset = rev (dropWhile (\<lambda>c. c \<in> set cutset) (rev s))"

subsection \<open>bufio\<close>

datatype error = EOF

text \<open>
  \<open>(*bufio.Reader).ReadString\<close> on the bytes still to come from the peer: the bytes up to
  and including the first delimiter, or all of them and an error when there is none. The
  third component is what stays unread.
\<close>

definition ReadString :: "string \<Rightarrow> char \<Rightarrow> string \<times> error option \<times> string" where
  "ReadString inp delim =
     (if delim \<in> set inp then
        (takeWhile (\<lambda>c. c \<noteq> delim) inp @ [delim], None, tl (dropWhile (\<lambda>c. c \<noteq> delim) inp))
      else (inp, Some EOF, []))"

subsection \<open>strconv and encoding/json\<close>

fun FormatUint :: "nat \<Rightarrow> string" where
  "FormatUint n =
     (if n < 10 then [char_of (48 + n)]
      else FormatUint (n div 10) @ [char_of (48 + n mod 10)])"

declare FormatUint.simps [simp del]

definition FormatInt :: "int \<Rightarrow> string" where
  "FormatInt i = (if i < 0 then CHR ''-'' # FormatUint (nat (- i)) else FormatUint (nat i))"

text \<open>The values the server puts into a \<open>map[string]any\<close>.\<close>

datatype any = AnyString string | AnyInt int | AnyInt64 "64 word"

text \<open>
  A JSON string literal, for a string none of whose bytes the encoder escapes (the keys of
  the statistics map and the version string are such strings).
\<close>

definition json_string :: "string \<Rightarrow> string" where
  "json_string s = [CHR 0x22] @ s @ [CHR 0x22]"

fun json_value :: "any \<Rightarrow> string" where
  "json_value (AnyString s) = json_string s"
| "json_value (AnyInt i) = FormatInt i"
| "json_value (AnyInt64 w) = FormatInt (sint w)"

fun join_comma :: "string list \<Rightarrow> string" where
  "join_comma [] = []"
| "join_comma [x] = x"
| "join_comma (x # y # ys) = x @ '','' @ join_comma (y # ys)"

text \<open>
  \<open>json.Marshal\<close> of a \<open>map[string]any\<close>, given as the list of its entries (the keys
  are distinct): an object whose members are sorted by key.
\<close>

definition json_Marshal :: "(string \<times> any) list \<Rightarrow> string" where
  "json_Marshal m =
     ''{'' @ join_comma (map (\<lambda>(k, v). json_string k @ '':'' @ json_value v) (sort_key fst m))
       @ ''}''"

section \<open>The server (src/server/main.go)\<close>

definition Version :: string where
  "Version = ''KV/1.0''"

definition DefaultAddr :: string where
  "DefaultAddr = ''127.0.0.1:5050''"

subsection \<open>The store\<close>

text \<open>
  The lock \<open>mu\<close> is not modelled: the operations below are the critical sections, one
  after the other.
\<close>

record store =
  data :: "(string, string) fmap"

definition newStore :: store where
  "newStore = \<lparr>data = fmempty\<rparr>"

definition put :: "store \<Rightarrow> string \<Rightarrow> string \<Rightarrow> store \<times> bool" where
  "put s k v =
     (let existed = (fmlookup (data s) k \<noteq> None);
          s' = s\<lparr>data := fmupd k v (data s)\<rparr>
      in (s', \<not> existed))"

text \<open>A lookup of a missing key gives the zero value, the empty string.\<close>

definition get :: "store \<Rightarrow> string \<Rightarrow> string \<times> bool" where
  "get s k = (case fmlookup (data s) k of Some v \<Rightarrow> (v, True) | None \<Rightarrow> ([], False))"

definition del :: "store \<Rightarrow> string \<Rightarrow> store \<times> bool" where
  "del s k =
     (if fmlookup (data s) k \<noteq> None then (s\<lparr>data := fmdrop k (data s)\<rparr>, True)
      else (s, False))"

definition store_size :: "store \<Rightarrow> nat" where
  "store_size s = fcard (fmdom (data s))"

subsection \<open>Statistics\<close>

text \<open>The counters are \<open>int64\<close>: addition wraps. \<open>StartTime\<close> is an instant.\<close>

record stats =
  StartTime :: int
  TotalConns :: "64 word"
  ActiveConns :: "64 word"
  ReqCount :: "64 word"
  PutCount :: "64 word"
  GetCount :: "64 word"
  DelCount :: "64 word"

record server =
  addr :: string
  store :: store
  stats :: stats

definition newServer :: "string \<Rightarrow> int \<Rightarrow> server" where
  "newServer a now =
     \<lparr>addr = a, store = newStore,
      stats = \<lparr>StartTime = now, TotalConns = 0, ActiveConns = 0, ReqCount = 0, PutCount = 0,
               GetCount = 0, DelCount = 0\<rparr>\<rparr>"

text \<open>
  \<open>incr\<close> takes a pointer to a counter of \<open>sv.stats\<close>; here the pointer is the update
  function of that field.
\<close>

definition incr :: "((64 word \<Rightarrow> 64 word) \<Rightarrow> stats \<Rightarrow> stats) \<Rightarrow> 64 word \<Rightarrow> server \<Rightarrow> server" where
  "incr field delta sv = sv\<lparr>stats := field (\<lambda>x. x + delta) (stats sv)\<rparr>"

text \<open>
  \<open>snapshotStats\<close>. The wall clock and the conversion of the elapsed time from floating
  point are outside the model: \<open>uptime\<close> is the value of \<open>int(uptime)\<close> at the call.
\<close>

definition snapshotStats :: "int \<Rightarrow> server \<Rightarrow> (string \<times> any) list" where
  "snapshotStats uptime sv =
     [(''version'', AnyString Version),
      (''uptime_sec'', AnyInt uptime),
      (''total_conns'', AnyInt64 (TotalConns (stats sv))),
      (''active_conns'', AnyInt64 (ActiveConns (stats sv))),
      (''req_count'', AnyInt64 (ReqCount (stats sv))),
      (''put_count'', AnyInt64 (PutCount (stats sv))),
      (''get_count'', AnyInt64 (GetCount (stats sv))),
      (''del_count'', AnyInt64 (DelCount (stats sv))),
      (''keys'', AnyInt (int (store_size (store sv))))]"

subsection \<open>Connections\<close>

text \<open>
  A connection: \<open>rd\<close> holds the bytes the peer sends that are not read yet, \<open>wr\<close> the
  bytes written to the peer so far.
\<close>

record conn =
  rd :: string
  wr :: string
  closed :: bool

text \<open>\<open>writeResp\<close> ignores the result of the write.\<close>

definition writeResp :: "conn \<Rightarrow> string \<Rightarrow> conn" where
  "writeResp c s = c\<lparr>wr := wr c @ s\<rparr>"

text \<open>How one round of the loop of \<open>handleConn\<close> ends: \<open>continue\<close> (or the end of the
  body), or \<open>return\<close>.\<close>

datatype flow = Continue | Return

text \<open>
  The body of the loop of \<open>handleConn\<close> from line 122 on, for a line that
  \<open>ReadString\<close> returned without error. \<open>caseTable\<close> is the parameter of
  \<open>unicode_ToUpper\<close>, \<open>uptime\<close> the one of \<open>snapshotStats\<close>.
\<close>

definition handleConn_body ::
    "(nat \<Rightarrow> nat) \<Rightarrow> int \<Rightarrow> server \<Rightarrow> conn \<Rightarrow> string \<Rightarrow> (server \<times> conn) \<times> flow" where
  "handleConn_body caseTable uptime sv0 c line0 =
     (let line = TrimRight line0 [CHR 0x0D, CHR 0x0A] in
      if line = [] then ((sv0, c), Continue) else
      let sv = incr ReqCount_update 1 sv0;
          toks = Fields line in
      if length toks < 2 then ((sv, writeResp c ''400 BAD_REQUEST\<newline>''), Continue) else
      if toks ! 0 \<noteq> Version then ((sv, writeResp c ''426 UPGRADE_REQUIRED\<newline>''), Continue) else
      let cmd = ToUpper caseTable (toks ! 1) in
      if cmd = ''PUT'' then
        (if length toks < 4 then ((sv, writeResp c ''400 BAD_REQUEST\<newline>''), Continue) else
         let key = toks ! 2;
             val = toks ! 3;
             (st, created) = put (store sv) key val;
             sv = sv\<lparr>store := st\<rparr>;
             sv = incr PutCount_update 1 sv in
         if created then ((sv, writeResp c ''201 CREATED\<newline>''), Continue)
         else ((sv, writeResp c ''200 OK\<newline>''), Continue))
      else if cmd = ''GET'' then
        (if length toks \<noteq> 3 then ((sv, writeResp c ''400 BAD_REQUEST\<newline>''), Continue) else
         let key = toks ! 2;
             (val, ok) = get (store sv) key in
         if ok then
           (let sv = incr GetCount_update 1 sv in
            ((sv, writeResp c (''200 OK '' @ val @ ''\<newline>'')), Continue))
         else ((sv, writeResp c ''404 NOT_FOUND\<newline>''), Continue))
      else if cmd = ''DEL'' then
        (if length toks \<noteq> 3 then ((sv, writeResp c ''400 BAD_REQUEST\<newline>''), Continue) else
         let key = toks ! 2;
             (st, deleted) = del (store sv) key;
             sv = sv\<lparr>store := st\<rparr> in
         if deleted then
           (let sv = incr DelCount_update 1 sv in
            ((sv, writeResp c ''204 NO_CONTENT\<newline>''), Continue))
         else ((sv, writeResp c ''404 NOT_FOUND\<newline>''), Continue))
      else if cmd = ''STATS'' then
        (if length toks \<noteq> 2 then ((sv, writeResp c ''400 BAD_REQUEST\<newline>''), Continue) else
         let payload = json_Marshal (snapshotStats uptime sv) in
         ((sv, writeResp c (''200 OK '' @ payload @ ''\<newline>'')), Continue))
      else if cmd = ''QUIT'' then ((sv, writeResp c ''200 OK bye\<newline>''), Return)
      else ((sv, writeResp c ''400 BAD_REQUEST\<newline>''), Continue))"

text \<open>The body reads nothing from the connection; a line that is read shortens what is
  left to read. Both are what makes the loop of \<open>handleConn\<close> end.\<close>

lemma handleConn_body_rd: "rd (snd (fst (handleConn_body t u sv c line))) = rd c"
  by (simp add: handleConn_body_def Let_def writeResp_def split: prod.splits)

lemma ReadString_shorter:
  assumes "ReadString inp d = (line, None, rest)"
  shows "length rest < length inp"
proof -
  from assms have mem: "d \<in> set inp" and rest: "rest = tl (dropWhile (\<lambda>c. c \<noteq> d) inp)"
    by (auto simp: ReadString_def split: if_splits)
  from mem have "dropWhile (\<lambda>c. c \<noteq> d) inp \<noteq> []" by simp
  then have "length rest < length (dropWhile (\<lambda>c. c \<noteq> d) inp)"
    unfolding rest by (cases "dropWhile (\<lambda>c. c \<noteq> d) inp") simp_all
  also have "\<dots> \<le> length inp" by (rule length_dropWhile_le)
  finally show ?thesis .
qed

text \<open>
  The loop of \<open>handleConn\<close>: read a line, leave when the read fails, run the body, go
  on unless the body returned. \<open>clock i\<close> is the uptime that a \<open>STATS\<close> request on the
  \<open>i\<close>-th line read would see.
\<close>

function handleConn_loop ::
    "(nat \<Rightarrow> nat) \<Rightarrow> (nat \<Rightarrow> int) \<Rightarrow> nat \<Rightarrow> server \<Rightarrow> conn \<Rightarrow> server \<times> conn" where
  "handleConn_loop caseTable clock i sv c =
     (case ReadString (rd c) (CHR 0x0A) of
        (line, Some err, rest) \<Rightarrow> (sv, c\<lparr>rd := rest\<rparr>)
      | (line, None, rest) \<Rightarrow>
          (case handleConn_body caseTable (clock i) sv (c\<lparr>rd := rest\<rparr>) line of
             ((sv', c'), Continue) \<Rightarrow> handleConn_loop caseTable clock (Suc i) sv' c'
           | ((sv', c'), Return) \<Rightarrow> (sv', c')))"
  by pat_completeness auto
termination
proof (relation "measure (\<lambda>(caseTable, clock, i, sv, c). length (rd c))")
  show "wf (measure (\<lambda>(caseTable, clock, i, sv, c). length (rd c)))" by simp
next
  fix caseTable :: "nat \<Rightarrow> nat" and clock :: "nat \<Rightarrow> int"
    and i sv c line y err rest w fl sv' c'
  assume rs: "(line, y) = ReadString (rd c) (CHR 0x0A)" "(err, rest) = y" "err = None"
    and bd: "(w, fl) = handleConn_body caseTable (clock i) sv (c\<lparr>rd := rest\<rparr>) line"
      "(sv', c') = w" "fl = Continue"
  from rs have "ReadString (rd c) (CHR 0x0A) = (line, None, rest)" by simp
  then have "length rest < length (rd c)" by (rule ReadString_shorter)
  moreover from bd
  have "c' = snd (fst (handleConn_body caseTable (clock i) sv (c\<lparr>rd := rest\<rparr>) line))"
    by (metis fst_conv snd_conv)
  then have "rd c' = rest" by (simp add: handleConn_body_rd)
  ultimately show "((caseTable, clock, Suc i, sv', c'), (caseTable, clock, i, sv, c))
      \<in> measure (\<lambda>(caseTable, clock, i, sv, c). length (rd c))" by simp
qed

declare handleConn_loop.simps [simp del]

text \<open>
  \<open>handleConn\<close>: the counters of connections, the loop, and the deferred function.
  (\<open>run\<close> and \<open>main\<close>, which listen and start one \<open>handleConn\<close> for each connection,
  are not modelled.)
\<close>

definition handleConn ::
    "(nat \<Rightarrow> nat) \<Rightarrow> (nat \<Rightarrow> int) \<Rightarrow> server \<Rightarrow> conn \<Rightarrow> server \<times> conn" where
  "handleConn caseTable clock sv0 c0 =
     (let sv = incr TotalConns_update 1 sv0;
          sv = incr ActiveConns_update 1 sv;
          (sv, c) = handleConn_loop caseTable clock 0 sv c0;
          sv = incr ActiveConns_update (- 1) sv;
          c = c\<lparr>closed := True\<rparr>
      in (sv, c))"

section \<open>Requests and runs\<close>

text \<open>The tokens the body splits a received line into.\<close>

definition tokens :: "string \<Rightarrow> string list" where
  "tokens line = Fields (TrimRight line [CHR 0x0D, CHR 0x0A])"

text \<open>
  The lines on which the body runs a command: the version token is right, the command
  token is the command's name in upper case after \<open>ToUpper\<close>, and the number of tokens
  passes the check the body makes for that command.
\<close>

definition is_PUT :: "(nat \<Rightarrow> nat) \<Rightarrow> string \<Rightarrow> string \<Rightarrow> string \<Rightarrow> bool" where
  "is_PUT caseTable line k v =
     (4 \<le> length (tokens line) \<and> tokens line ! 0 = Version
      \<and> ToUpper caseTable (tokens line ! 1) = ''PUT''
      \<and> tokens line ! 2 = k \<and> tokens line ! 3 = v)"

definition is_GET :: "(nat \<Rightarrow> nat) \<Rightarrow> string \<Rightarrow> string \<Rightarrow> bool" where
  "is_GET caseTable line k =
     (length (tokens line) = 3 \<and> tokens line ! 0 = Version
      \<and> ToUpper caseTable (tokens line ! 1) = ''GET'' \<and> tokens line ! 2 = k)"

definition is_DEL :: "(nat \<Rightarrow> nat) \<Rightarrow> string \<Rightarrow> string \<Rightarrow> bool" where
  "is_DEL caseTable line k =
     (length (tokens line) = 3 \<and> tokens line ! 0 = Version
      \<and> ToUpper caseTable (tokens line ! 1) = ''DEL'' \<and> tokens line ! 2 = k)"

definition is_STATS :: "(nat \<Rightarrow> nat) \<Rightarrow> string \<Rightarrow> bool" where
  "is_STATS caseTable line =
     (length (tokens line) = 2 \<and> tokens line ! 0 = Version
      \<and> ToUpper caseTable (tokens line ! 1) = ''STATS'')"

text \<open>
  Requests served one after the other, each by the body of the loop, whichever connection
  each one came on; every request comes with the uptime at its arrival.
\<close>

fun serve :: "(nat \<Rightarrow> nat) \<Rightarrow> server \<Rightarrow> conn \<Rightarrow> (int \<times> string) list \<Rightarrow> server \<times> conn" where
  "serve caseTable sv c [] = (sv, c)"
| "serve caseTable sv c ((uptime, line) # reqs) =
     (case handleConn_body caseTable uptime sv c line of
        ((sv', c'), fl) \<Rightarrow> serve caseTable sv' c' reqs)"

text \<open>
  What a sequence of requests asks for, read off the lines alone: which lines are commands
  that the server runs, which keys are live after them, how many \<open>PUT\<close>s there are and
  how many \<open>GET\<close>s and \<open>DEL\<close>s find their key.
\<close>

definition put_req :: "(nat \<Rightarrow> nat) \<Rightarrow> string \<Rightarrow> bool" where
  "put_req caseTable line = is_PUT caseTable line (tokens line ! 2) (tokens line ! 3)"

definition get_req :: "(nat \<Rightarrow> nat) \<Rightarrow> string \<Rightarrow> bool" where
  "get_req caseTable line = is_GET caseTable line (tokens line ! 2)"

definition del_req :: "(nat \<Rightarrow> nat) \<Rightarrow> string \<Rightarrow> bool" where
  "del_req caseTable line = is_DEL caseTable line (tokens line ! 2)"

definition hit :: "(string, string) fmap \<Rightarrow> string \<Rightarrow> bool" where
  "hit m line = (fmlookup m (tokens line ! 2) \<noteq> None)"

definition apply_request :: "(nat \<Rightarrow> nat) \<Rightarrow> (string, string) fmap \<Rightarrow> string \<Rightarrow> (string, string) fmap" where
  "apply_request caseTable m line =
     (if put_req caseTable line then fmupd (tokens line ! 2) (tokens line ! 3) m
      else if del_req caseTable line then fmdrop (tokens line ! 2) m
      else m)"

fun live_entries :: "(nat \<Rightarrow> nat) \<Rightarrow> (string, string) fmap \<Rightarrow> string list \<Rightarrow> (string, string) fmap" where
  "live_entries caseTable m [] = m"
| "live_entries caseTable m (l # ls) = live_entries caseTable (apply_request caseTable m l) ls"

definition put_total :: "(nat \<Rightarrow> nat) \<Rightarrow> string list \<Rightarrow> nat" where
  "put_total caseTable ls = length (filter (put_req caseTable) ls)"

fun get_hits :: "(nat \<Rightarrow> nat) \<Rightarrow> (string, string) fmap \<Rightarrow> string list \<Rightarrow> nat" where
  "get_hits caseTable m [] = 0"
| "get_hits caseTable m (l # ls) =
     (if get_req caseTable l \<and> hit m l then 1 else 0)
       + get_hits caseTable (apply_request caseTable m l) ls"

fun del_hits :: "(nat \<Rightarrow> nat) \<Rightarrow> (string, string) fmap \<Rightarrow> string list \<Rightarrow> nat" where
  "del_hits caseTable m [] = 0"
| "del_hits caseTable m (l # ls) =
     (if del_req caseTable l \<and> hit m l then 1 else 0)
       + del_hits caseTable (apply_request caseTable m l) ls"

text \<open>The lines on which the body returns.\<close>

definition is_QUIT :: "(nat \<Rightarrow> nat) \<Rightarrow> string \<Rightarrow> bool" where
  "is_QUIT caseTable line =
     (2 \<le> length (tokens line) \<and> tokens line ! 0 = Version
      \<and> ToUpper caseTable (tokens line ! 1) = ''QUIT'')"

text \<open>A line as \<open>ReadString\<close> returns it: it ends with the only line feed it has.\<close>

definition wire_line :: "string \<Rightarrow> bool" where
  "wire_line l = (l \<noteq> [] \<and> last l = CHR 0x0A \<and> CHR 0x0A \<notin> set (butlast l))"

text \<open>The table \<open>asciiSpace\<close> of package strings: the white space among the ASCII bytes.\<close>

definition asciiSpace :: "char \<Rightarrow> bool" where
  "asciiSpace c = (c = CHR 0x09 \<or> c = CHR 0x0A \<or> c = CHR 0x0B \<or> c = CHR 0x0C \<or> c = CHR 0x0D
     \<or> c = CHR 0x20)"

text \<open>A string all of whose runes are white space for \<open>unicode.IsSpace\<close>.\<close>

definition only_space :: "string \<Rightarrow> bool" where
  "only_space s = list_all (\<lambda>(r, bs). IsSpace r) (range_string s)"

text \<open>
  Values for the two parameters of the model: a case table that changes no rune (the
  commands are ASCII, which the table is not asked about), and a clock that stands still.
\<close>

definition noCase :: "nat \<Rightarrow> nat" where
  "noCase r = r"

definition clock0 :: "nat \<Rightarrow> int" where
  "clock0 i = 0"

text \<open>A connection on which nothing was written yet, with the bytes the peer will send.\<close>

definition newConn :: "string \<Rightarrow> conn" where
  "newConn inp = \<lparr>rd = inp, wr = [], closed = False\<rparr>"

section \<open>The body of the loop, case by case\<close>

lemma Fields_Nil: "Fields [] = []"
  by (simp add: Fields_def FieldsFunc_def)

lemma tokens_blank: "TrimRight line [CHR 0x0D, CHR 0x0A] = [] \<Longrightarrow> tokens line = []"
  by (simp add: tokens_def Fields_Nil)

lemma tokens_nonblank: "tokens line \<noteq> [] \<Longrightarrow> TrimRight line [CHR 0x0D, CHR 0x0A] \<noteq> []"
  using tokens_blank by blast

lemma store_incr: "store (incr f d sv) = store sv"
  by (simp add: incr_def)

lemma body_blank:
  "TrimRight line [CHR 0x0D, CHR 0x0A] = [] \<Longrightarrow> handleConn_body T u sv c line = ((sv, c), Continue)"
  by (simp add: handleConn_body_def)

lemma body_few:
  assumes "TrimRight line [CHR 0x0D, CHR 0x0A] \<noteq> []" and "length (tokens line) < 2"
  shows "handleConn_body T u sv c line =
    ((incr ReqCount_update 1 sv, writeResp c ''400 BAD_REQUEST\<newline>''), Continue)"
  using assms by (simp add: handleConn_body_def tokens_def Let_def)

lemma body_version:
  assumes "2 \<le> length (tokens line)" and "tokens line ! 0 \<noteq> Version"
  shows "handleConn_body T u sv c line =
    ((incr ReqCount_update 1 sv, writeResp c ''426 UPGRADE_REQUIRED\<newline>''), Continue)"
proof -
  from assms(1) have "tokens line \<noteq> []" by auto
  then have "TrimRight line [CHR 0x0D, CHR 0x0A] \<noteq> []" by (rule tokens_nonblank)
  with assms show ?thesis
    by (simp add: handleConn_body_def tokens_def Let_def)
qed

text \<open>The dispatch on the command, once the line has two tokens or more and the version
  is right.\<close>

lemma body_dispatch:
  assumes "2 \<le> length (tokens line)" and "tokens line ! 0 = Version"
  shows "handleConn_body T u sv0 c line =
    (let sv = incr ReqCount_update 1 sv0; toks = tokens line;
         cmd = ToUpper T (toks ! 1) in
      if cmd = ''PUT'' then
        (if length toks < 4 then ((sv, writeResp c ''400 BAD_REQUEST\<newline>''), Continue) else
         let key = toks ! 2;
             val = toks ! 3;
             (st, created) = put (store sv) key val;
             sv = sv\<lparr>store := st\<rparr>;
             sv = incr PutCount_update 1 sv in
         if created then ((sv, writeResp c ''201 CREATED\<newline>''), Continue)
         else ((sv, writeResp c ''200 OK\<newline>''), Continue))
      else if cmd = ''GET'' then
        (if length toks \<noteq> 3 then ((sv, writeResp c ''400 BAD_REQUEST\<newline>''), Continue) else
         let key = toks ! 2;
             (val, ok) = get (store sv) key in
         if ok then
           (let sv = incr GetCount_update 1 sv in
            ((sv, writeResp c (''200 OK '' @ val @ ''\<newline>'')), Continue))
         else ((sv, writeResp c ''404 NOT_FOUND\<newline>''), Continue))
      else if cmd = ''DEL'' then
        (if length toks \<noteq> 3 then ((sv, writeResp c ''400 BAD_REQUEST\<newline>''), Continue) else
         let key = toks ! 2;
             (st, deleted) = del (store sv) key;
             sv = sv\<lparr>store := st\<rparr> in
         if deleted then
           (let sv = incr DelCount_update 1 sv in
            ((sv, writeResp c ''204 NO_CONTENT\<newline>''), Continue))
         else ((sv, writeResp c ''404 NOT_FOUND\<newline>''), Continue))
      else if cmd = ''STATS'' then
        (if length toks \<noteq> 2 then ((sv, writeResp c ''400 BAD_REQUEST\<newline>''), Continue) else
         let payload = json_Marshal (snapshotStats u sv) in
         ((sv, writeResp c (''200 OK '' @ payload @ ''\<newline>'')), Continue))
      else if cmd = ''QUIT'' then ((sv, writeResp c ''200 OK bye\<newline>''), Return)
      else ((sv, writeResp c ''400 BAD_REQUEST\<newline>''), Continue))"
proof -
  from assms(1) have "tokens line \<noteq> []" by auto
  then have "TrimRight line [CHR 0x0D, CHR 0x0A] \<noteq> []" by (rule tokens_nonblank)
  moreover from assms(1) have "\<not> length (tokens line) < 2" by simp
  ultimately show ?thesis using assms(2)
    by (simp add: handleConn_body_def tokens_def Let_def)
qed

lemma body_PUT:
  assumes "is_PUT T line k v"
  shows "handleConn_body T u sv c line =
    ((incr PutCount_update 1 (incr ReqCount_update 1 sv\<lparr>store := fst (put (store sv) k v)\<rparr>),
      writeResp c (if snd (put (store sv) k v) then ''201 CREATED\<newline>'' else ''200 OK\<newline>'')),
     Continue)"
proof -
  from assms have a: "2 \<le> length (tokens line)" "tokens line ! 0 = Version"
    and b: "ToUpper T (tokens line ! 1) = ''PUT''" "\<not> length (tokens line) < 4"
      "tokens line ! 2 = k" "tokens line ! 3 = v"
    by (simp_all add: is_PUT_def)
  show ?thesis using b
    by (simp add: body_dispatch [OF a] Let_def store_incr split: prod.splits)
qed

lemma body_PUT_short:
  assumes "2 \<le> length (tokens line)" and "tokens line ! 0 = Version"
    and "ToUpper T (tokens line ! 1) = ''PUT''" and "length (tokens line) < 4"
  shows "handleConn_body T u sv c line =
    ((incr ReqCount_update 1 sv, writeResp c ''400 BAD_REQUEST\<newline>''), Continue)"
  using assms(3,4) by (simp add: body_dispatch [OF assms(1,2)] Let_def)

lemma body_GET:
  assumes "is_GET T line k"
  shows "handleConn_body T u sv c line =
    (if snd (get (store sv) k)
     then ((incr GetCount_update 1 (incr ReqCount_update 1 sv),
            writeResp c (''200 OK '' @ fst (get (store sv) k) @ ''\<newline>'')), Continue)
     else ((incr ReqCount_update 1 sv, writeResp c ''404 NOT_FOUND\<newline>''), Continue))"
proof -
  from assms have a: "2 \<le> length (tokens line)" "tokens line ! 0 = Version"
    and b: "ToUpper T (tokens line ! 1) = ''GET''" "length (tokens line) = 3"
      "tokens line ! 2 = k"
    by (simp_all add: is_GET_def)
  show ?thesis using b
    by (simp add: body_dispatch [OF a] Let_def store_incr split: prod.splits)
qed

lemma body_GET_arity:
  assumes "2 \<le> length (tokens line)" and "tokens line ! 0 = Version"
    and "ToUpper T (tokens line ! 1) = ''GET''" and "length (tokens line) \<noteq> 3"
  shows "handleConn_body T u sv c line =
    ((incr ReqCount_update 1 sv, writeResp c ''400 BAD_REQUEST\<newline>''), Continue)"
  using assms(3,4) by (simp add: body_dispatch [OF assms(1,2)] Let_def)

lemma body_DEL:
  assumes "is_DEL T line k"
  shows "handleConn_body T u sv c line =
    (if snd (del (store sv) k)
     then ((incr DelCount_update 1 (incr ReqCount_update 1 sv\<lparr>store := fst (del (store sv) k)\<rparr>),
            writeResp c ''204 NO_CONTENT\<newline>''), Continue)
     else ((incr ReqCount_update 1 sv\<lparr>store := fst (del (store sv) k)\<rparr>,
            writeResp c ''404 NOT_FOUND\<newline>''), Continue))"
proof -
  from assms have a: "2 \<le> length (tokens line)" "tokens line ! 0 = Version"
    and b: "ToUpper T (tokens line ! 1) = ''DEL''" "length (tokens line) = 3"
      "tokens line ! 2 = k"
    by (simp_all add: is_DEL_def)
  show ?thesis using b
    by (simp add: body_dispatch [OF a] Let_def store_incr split: prod.splits)
qed

lemma body_DEL_arity:
  assumes "2 \<le> length (tokens line)" and "tokens line ! 0 = Version"
    and "ToUpper T (tokens line ! 1) = ''DEL''" and "length (tokens line) \<noteq> 3"
  shows "handleConn_body T u sv c line =
    ((incr ReqCount_update 1 sv, writeResp c ''400 BAD_REQUEST\<newline>''), Continue)"
  using assms(3,4) by (simp add: body_dispatch [OF assms(1,2)] Let_def)

lemma body_STATS:
  assumes "is_STATS T line"
  shows "handleConn_body T u sv c line =
    ((incr ReqCount_update 1 sv,
      writeResp c (''200 OK '' @ json_Marshal (snapshotStats u (incr ReqCount_update 1 sv))
        @ ''\<newline>'')), Continue)"
proof -
  from assms have a: "2 \<le> length (tokens line)" "tokens line ! 0 = Version"
    and b: "ToUpper T (tokens line ! 1) = ''STATS''" "length (tokens line) = 2"
    by (simp_all add: is_STATS_def)
  show ?thesis using b
    by (simp add: body_dispatch [OF a] Let_def)
qed

lemma body_STATS_arity:
  assumes "2 \<le> length (tokens line)" and "tokens line ! 0 = Version"
    and "ToUpper T (tokens line ! 1) = ''STATS''" and "length (tokens line) \<noteq> 2"
  shows "handleConn_body T u sv c line =
    ((incr ReqCount_update 1 sv, writeResp c ''400 BAD_REQUEST\<newline>''), Continue)"
  using assms(3,4) by (simp add: body_dispatch [OF assms(1,2)] Let_def)

lemma body_QUIT:
  assumes "2 \<le> length (tokens line)" and "tokens line ! 0 = Version"
    and "ToUpper T (tokens line ! 1) = ''QUIT''"
  shows "handleConn_body T u sv c line =
    ((incr ReqCount_update 1 sv, writeResp c ''200 OK bye\<newline>''), Return)"
  using assms(3) by (simp add: body_dispatch [OF assms(1,2)] Let_def)

lemma body_unknown:
  assumes "2 \<le> length (tokens line)" and "tokens line ! 0 = Version"
    and "ToUpper T (tokens line ! 1) \<notin> {''PUT'', ''GET'', ''DEL'', ''STATS'', ''QUIT''}"
  shows "handleConn_body T u sv c line =
    ((incr ReqCount_update 1 sv, writeResp c ''400 BAD_REQUEST\<newline>''), Continue)"
  using assms(3) by (simp add: body_dispatch [OF assms(1,2)] Let_def)

lemma fmdrop_absent: "fmlookup m k = None \<Longrightarrow> fmdrop k m = m"
  by (rule fmap_ext) auto

lemma body_step:
  assumes "handleConn_body T u sv c line = ((sv', c'), fl)"
  shows "data (store sv') = apply_request T (data (store sv)) line"
    and "PutCount (stats sv') = PutCount (stats sv) + (if put_req T line then 1 else 0)"
    and "GetCount (stats sv') = GetCount (stats sv)
           + (if get_req T line \<and> hit (data (store sv)) line then 1 else 0)"
    and "DelCount (stats sv') = DelCount (stats sv)
           + (if del_req T line \<and> hit (data (store sv)) line then 1 else 0)"
proof -
  consider (blank) "TrimRight line [CHR 0x0D, CHR 0x0A] = []"
    | (few) "TrimRight line [CHR 0x0D, CHR 0x0A] \<noteq> []" "length (tokens line) < 2"
    | (version) "2 \<le> length (tokens line)" "tokens line ! 0 \<noteq> Version"
    | (cmd) "2 \<le> length (tokens line)" "tokens line ! 0 = Version"
    by fastforce
  then have "data (store sv') = apply_request T (data (store sv)) line
    \<and> PutCount (stats sv') = PutCount (stats sv) + (if put_req T line then 1 else 0)
    \<and> GetCount (stats sv') = GetCount (stats sv)
           + (if get_req T line \<and> hit (data (store sv)) line then 1 else 0)
    \<and> DelCount (stats sv') = DelCount (stats sv)
           + (if del_req T line \<and> hit (data (store sv)) line then 1 else 0)"
  proof cases
    case blank
    then have "tokens line = []" by (rule tokens_blank)
    then have "\<not> put_req T line" "\<not> get_req T line" "\<not> del_req T line"
      by (simp_all add: put_req_def get_req_def del_req_def is_PUT_def is_GET_def is_DEL_def)
    moreover from assms have "sv' = sv" by (simp add: body_blank [OF blank])
    ultimately show ?thesis by (simp add: apply_request_def)
  next
    case few
    then have "\<not> put_req T line" "\<not> get_req T line" "\<not> del_req T line"
      by (simp_all add: put_req_def get_req_def del_req_def is_PUT_def is_GET_def is_DEL_def)
    moreover from assms have "sv' = incr ReqCount_update 1 sv" by (simp add: body_few [OF few])
    ultimately show ?thesis by (simp add: apply_request_def incr_def)
  next
    case version
    then have "\<not> put_req T line" "\<not> get_req T line" "\<not> del_req T line"
      by (simp_all add: put_req_def get_req_def del_req_def is_PUT_def is_GET_def is_DEL_def)
    moreover from assms have "sv' = incr ReqCount_update 1 sv"
      by (simp add: body_version [OF version])
    ultimately show ?thesis by (simp add: apply_request_def incr_def)
  next
    case cmd
    show ?thesis using assms cmd
      by (auto simp add: body_dispatch [OF cmd] Let_def put_req_def get_req_def del_req_def
        is_PUT_def is_GET_def is_DEL_def apply_request_def hit_def incr_def put_def get_def del_def fmdrop_absent
        split: if_splits prod.splits option.splits)
  qed
  then show "data (store sv') = apply_request T (data (store sv)) line"
    and "PutCount (stats sv') = PutCount (stats sv) + (if put_req T line then 1 else 0)"
    and "GetCount (stats sv') = GetCount (stats sv)
           + (if get_req T line \<and> hit (data (store sv)) line then 1 else 0)"
    and "DelCount (stats sv') = DelCount (stats sv)
           + (if del_req T line \<and> hit (data (store sv)) line then 1 else 0)"
    by simp_all
qed

lemma put_created: "snd (put s k v) \<longleftrightarrow> fmlookup (data s) k = None"
  by (simp add: put_def)

lemma put_data: "data (fst (put s k v)) = fmupd k v (data s)"
  by (simp add: put_def)

text \<open>The first request of a sequence, when it is a command that runs.\<close>

lemma serve_PUT:
  assumes "is_PUT T l k v"
  shows "serve T sv c ((u, l) # rs) =
    serve T (incr PutCount_update 1 (incr ReqCount_update 1 sv\<lparr>store := fst (put (store sv) k v)\<rparr>))
      (writeResp c (if snd (put (store sv) k v) then ''201 CREATED\<newline>'' else ''200 OK\<newline>'')) rs"
  by (simp add: body_PUT [OF assms])

lemma serve_GET:
  assumes "is_GET T l k"
  shows "serve T sv c ((u, l) # rs) =
    (if snd (get (store sv) k)
     then serve T (incr GetCount_update 1 (incr ReqCount_update 1 sv))
            (writeResp c (''200 OK '' @ fst (get (store sv) k) @ ''\<newline>'')) rs
     else serve T (incr ReqCount_update 1 sv) (writeResp c ''404 NOT_FOUND\<newline>'') rs)"
  by (simp add: body_GET [OF assms])

lemma serve_DEL:
  assumes "is_DEL T l k"
  shows "serve T sv c ((u, l) # rs) =
    (if snd (del (store sv) k)
     then serve T (incr DelCount_update 1 (incr ReqCount_update 1 sv\<lparr>store := fst (del (store sv) k)\<rparr>))
            (writeResp c ''204 NO_CONTENT\<newline>'') rs
     else serve T (incr ReqCount_update 1 sv\<lparr>store := fst (del (store sv) k)\<rparr>)
            (writeResp c ''404 NOT_FOUND\<newline>'') rs)"
  by (simp add: body_DEL [OF assms])

section \<open>A connection that sends whole lines\<close>

text \<open>
  The body returns on a \<open>QUIT\<close> line and on no other; what it does is the same
  whatever is left to read.
\<close>

lemma body_flow:
  "snd (handleConn_body T u sv c line) = (if is_QUIT T line then Return else Continue)"
proof -
  consider (blank) "TrimRight line [CHR 0x0D, CHR 0x0A] = []"
    | (few) "TrimRight line [CHR 0x0D, CHR 0x0A] \<noteq> []" "length (tokens line) < 2"
    | (version) "2 \<le> length (tokens line)" "tokens line ! 0 \<noteq> Version"
    | (cmd) "2 \<le> length (tokens line)" "tokens line ! 0 = Version"
    by fastforce
  then show ?thesis
  proof cases
    case blank
    then have "tokens line = []" by (rule tokens_blank)
    then show ?thesis by (simp add: body_blank [OF blank] is_QUIT_def)
  next
    case few
    then show ?thesis by (simp add: body_few is_QUIT_def)
  next
    case version
    then show ?thesis by (simp add: body_version is_QUIT_def)
  next
    case cmd
    then show ?thesis
      by (simp add: body_dispatch [OF cmd] is_QUIT_def Let_def split: prod.splits)
  qed
qed

lemma body_rd_update:
  "handleConn_body T u sv (c\<lparr>rd := r\<rparr>) line =
     (case handleConn_body T u sv c line of ((sv', c'), fl) \<Rightarrow> ((sv', c'\<lparr>rd := r\<rparr>), fl))"
  by (simp add: handleConn_body_def Let_def writeResp_def split: prod.splits)

text \<open>
  On a connection whose peer sends the lines \<open>ls\<close>, none of them a \<open>QUIT\<close>, and then
  closes (after a last piece \<open>tail\<close> with no line feed, which is dropped), the loop of
  \<open>handleConn\<close> serves the lines in order.
\<close>

lemma ReadString_wire:
  assumes "wire_line l"
  shows "ReadString (l @ rest) (CHR 0x0A) = (l, None, rest)"
proof -
  from assms obtain b where l: "l = b @ [CHR 0x0A]" and b: "CHR 0x0A \<notin> set b"
    unfolding wire_line_def by (metis append_butlast_last_id)
  from b have "takeWhile (\<lambda>c. c \<noteq> CHR 0x0A) (b @ CHR 0x0A # rest) = b"
    by (induction b) auto
  moreover from b have "dropWhile (\<lambda>c. c \<noteq> CHR 0x0A) (b @ CHR 0x0A # rest) = CHR 0x0A # rest"
    by (induction b) auto
  ultimately show ?thesis by (simp add: ReadString_def l)
qed

lemma handleConn_loop_EOF:
  assumes "CHR 0x0A \<notin> set (rd c)"
  shows "handleConn_loop T clock i sv c = (sv, c\<lparr>rd := []\<rparr>)"
  by (subst handleConn_loop.simps) (simp add: ReadString_def assms)

lemma handleConn_loop_serve:
  assumes "list_all wire_line ls" and "list_all (\<lambda>l. \<not> is_QUIT T l) ls"
    and "CHR 0x0A \<notin> set tail"
  shows "handleConn_loop T clock i sv (c\<lparr>rd := concat ls @ tail\<rparr>) =
    (case serve T sv c (zip (map clock [i..<i + length ls]) ls) of
       (sv', c') \<Rightarrow> (sv', c'\<lparr>rd := []\<rparr>))"
  using assms(1,2)
proof (induction ls arbitrary: i sv c)
  case Nil
  show ?case using assms(3) by (simp add: handleConn_loop_EOF)
next
  case (Cons l ls)
  from Cons.prems have wl: "wire_line l" and nq: "\<not> is_QUIT T l"
    and rest: "list_all wire_line ls" "list_all (\<lambda>l. \<not> is_QUIT T l) ls"
    by simp_all
  obtain sv1 c1 fl where b: "handleConn_body T (clock i) sv c l = ((sv1, c1), fl)"
    by (metis surj_pair)
  from body_flow [of T "clock i" sv c l] nq b have fl: "fl = Continue" by simp
  have rs: "ReadString (l @ concat ls @ tail) (CHR 0x0A) = (l, None, concat ls @ tail)"
    by (rule ReadString_wire [OF wl])
  have "handleConn_loop T clock i sv (c\<lparr>rd := concat (l # ls) @ tail\<rparr>) =
      handleConn_loop T clock (Suc i) sv1 (c1\<lparr>rd := concat ls @ tail\<rparr>)"
    by (subst handleConn_loop.simps) (simp add: rs body_rd_update b fl)
  also have "\<dots> = (case serve T sv1 c1 (zip (map clock [Suc i..<Suc i + length ls]) ls) of
       (sv', c') \<Rightarrow> (sv', c'\<lparr>rd := []\<rparr>))"
    by (rule Cons.IH [OF rest])
  also have "serve T sv1 c1 (zip (map clock [Suc i..<Suc i + length ls]) ls) =
      serve T sv c (zip (map clock [i..<i + length (l # ls)]) (l # ls))"
  proof -
    have "[i..<i + length (l # ls)] = i # [Suc i..<Suc i + length ls]"
      by (subst upt_rec) simp
    then show ?thesis
      by (simp only: list.map zip_Cons_Cons serve.simps b prod.case)
  qed
  finally show ?case .
qed

lemma handleConn_serve:
  assumes "list_all wire_line ls" and "list_all (\<lambda>l. \<not> is_QUIT T l) ls"
    and "CHR 0x0A \<notin> set tail"
  shows "handleConn T clock sv (c\<lparr>rd := concat ls @ tail\<rparr>) =
    (case serve T (incr ActiveConns_update 1 (incr TotalConns_update 1 sv)) c
        (zip (map clock [0..<length ls]) ls) of
       (sv', c') \<Rightarrow> (incr ActiveConns_update (- 1) sv', c'\<lparr>rd := [], closed := True\<rparr>))"
  using handleConn_loop_serve [OF assms, of clock 0]
  by (simp add: handleConn_def Let_def split: prod.splits)

section \<open>The claims\<close>

text \<open>The definitions that evaluating the model on a concrete line unfolds.\<close>

lemmas eval_strings = tokens_def TrimRight_def Fields_def FieldsFunc_def DecodeRuneInString_def
  first_def RuneError_def IsSpace_def ToUpper_def strings_Map_def unicode_ToUpper_def
  EncodeRune_def char_of_eq_iff Version_def

lemmas eval_server = newServer_def newStore_def newConn_def incr_def writeResp_def put_def
  get_def del_def store_size_def

lemmas eval_body = handleConn_body_def is_PUT_def is_GET_def is_DEL_def is_STATS_def

subsection \<open>C1: the last write wins\<close>

text \<open>
  C1. After \<open>PUT(k, v1)\<close> and then \<open>PUT(k, v2)\<close>, a \<open>GET(k)\<close> finds the key and
  returns \<open>v2\<close>: the store's \<open>get\<close> returns \<open>(v2, true)\<close> after the two \<open>put\<close>s, also
  in the server that has served the two \<open>PUT\<close> lines, and the response to the \<open>GET\<close>
  line that follows them is \<open>200 OK v2\<close>.
\<close>

theorem C1_last_write_wins:
  assumes "is_PUT T l1 k v1" and "is_PUT T l2 k v2" and "is_GET T l3 k"
  shows "get (fst (put (fst (put (store sv) k v1)) k v2)) k = (v2, True)
    \<and> get (store (fst (serve T sv c [(u1, l1), (u2, l2)]))) k = (v2, True)
    \<and> wr (snd (serve T sv c [(u1, l1), (u2, l2), (u3, l3)])) =
        wr (snd (serve T sv c [(u1, l1), (u2, l2)])) @ ''200 OK '' @ v2 @ ''\<newline>''"
proof -
  let ?sv1 = "incr PutCount_update 1 (incr ReqCount_update 1 sv\<lparr>store := fst (put (store sv) k v1)\<rparr>)"
  let ?c1 = "writeResp c (if snd (put (store sv) k v1) then ''201 CREATED\<newline>'' else ''200 OK\<newline>'')"
  let ?sv2 = "incr PutCount_update 1 (incr ReqCount_update 1 ?sv1\<lparr>store := fst (put (store ?sv1) k v2)\<rparr>)"
  let ?c2 = "writeResp ?c1 (if snd (put (store ?sv1) k v2) then ''201 CREATED\<newline>'' else ''200 OK\<newline>'')"
  have two: "serve T sv c ((u1, l1) # (u2, l2) # rs) = serve T ?sv2 ?c2 rs" for rs
    by (simp only: serve_PUT [OF assms(1)] serve_PUT [OF assms(2)])
  have g: "get (store ?sv2) k = (v2, True)"
    by (simp add: store_incr put_def get_def)
  have "serve T ?sv2 ?c2 [(u3, l3)] =
      (incr GetCount_update 1 (incr ReqCount_update 1 ?sv2), writeResp ?c2 (''200 OK '' @ v2 @ ''\<newline>''))"
    by (simp only: serve_GET [OF assms(3)] g fst_conv snd_conv if_True serve.simps(1))
  then have "wr (snd (serve T sv c [(u1, l1), (u2, l2), (u3, l3)])) = wr ?c2 @ ''200 OK '' @ v2 @ ''\<newline>''"
    by (simp only: two) (simp add: writeResp_def)
  moreover have "serve T sv c [(u1, l1), (u2, l2)] = (?sv2, ?c2)"
    by (simp only: two serve.simps(1))
  ultimately show ?thesis using g by (simp add: put_def get_def)
qed

text \<open>Two \<open>PUT\<close>s of the key \<open>color\<close> on a new server, then a \<open>GET\<close>.\<close>

theorem C1_witness:
  "is_PUT noCase ''KV/1.0 PUT color red\<newline>'' ''color'' ''red''
   \<and> is_PUT noCase ''KV/1.0 put color blue\<newline>'' ''color'' ''blue''
   \<and> is_GET noCase ''KV/1.0 GET color\<newline>'' ''color''
   \<and> wr (snd (serve noCase (newServer [] 0) (newConn [])
        [(0, ''KV/1.0 PUT color red\<newline>''), (0, ''KV/1.0 put color blue\<newline>''),
         (0, ''KV/1.0 GET color\<newline>'')]))
      = ''201 CREATED\<newline>200 OK\<newline>200 OK blue\<newline>''"
  using C1_last_write_wins [of noCase "''KV/1.0 PUT color red\<newline>''" "''color''" "''red''"
      "''KV/1.0 put color blue\<newline>''" "''blue''" "''KV/1.0 GET color\<newline>''"
      "newServer [] 0" "newConn []" 0 0 0]
  by (simp add: eval_body eval_strings eval_server)


subsection \<open>C2: existence signalling\<close>

text \<open>
  C2. For a key that is not in the store, \<open>GET(k)\<close> is answered \<open>404 NOT_FOUND\<close>,
  \<open>PUT(k, v)\<close> is answered \<open>201 CREATED\<close> and a second \<open>PUT(k, v')\<close> is answered
  \<open>200 OK\<close>; and \<open>put\<close> returns \<open>created = true\<close> exactly when the key was not in
  the store before.
\<close>

theorem C2_existence_signalling:
  assumes "fmlookup (data (store sv)) k = None"
    and "is_GET T lg k" and "is_PUT T lp k v" and "is_PUT T lp' k v'"
  shows "wr (snd (serve T sv c [(u1, lg), (u2, lp), (u3, lp')])) =
      wr c @ ''404 NOT_FOUND\<newline>'' @ ''201 CREATED\<newline>'' @ ''200 OK\<newline>''
    \<and> (snd (put s j w) \<longleftrightarrow> fmlookup (data s) j = None)"
proof -
  let ?sv1 = "incr ReqCount_update 1 sv"
  let ?c1 = "writeResp c ''404 NOT_FOUND\<newline>''"
  let ?sv2 = "incr PutCount_update 1 (incr ReqCount_update 1 ?sv1\<lparr>store := fst (put (store ?sv1) k v)\<rparr>)"
  let ?c2 = "writeResp ?c1 ''201 CREATED\<newline>''"
  let ?sv3 = "incr PutCount_update 1 (incr ReqCount_update 1 ?sv2\<lparr>store := fst (put (store ?sv2) k v')\<rparr>)"
  let ?c3 = "writeResp ?c2 ''200 OK\<newline>''"
  from assms(1) have miss: "\<not> snd (get (store sv) k)" by (simp add: get_def)
  have one: "serve T sv c ((u1, lg) # rs) = serve T ?sv1 ?c1 rs" for rs
    by (simp only: serve_GET [OF assms(2)] miss if_False)
  from assms(1) have new: "snd (put (store ?sv1) k v)" by (simp add: put_created store_incr)
  have two: "serve T ?sv1 ?c1 ((u2, lp) # rs) = serve T ?sv2 ?c2 rs" for rs
    by (simp only: serve_PUT [OF assms(3)] new if_True)
  have old: "\<not> snd (put (store ?sv2) k v')" by (simp add: put_created put_data store_incr)
  have three: "serve T ?sv2 ?c2 ((u3, lp') # rs) = serve T ?sv3 ?c3 rs" for rs
    by (simp only: serve_PUT [OF assms(4)] old if_False)
  have "serve T sv c [(u1, lg), (u2, lp), (u3, lp')] = (?sv3, ?c3)"
    by (simp only: one two three serve.simps(1))
  then show ?thesis by (simp add: writeResp_def put_created)
qed

text \<open>A new server asked for the key \<open>n\<close>, which is then put twice.\<close>

theorem C2_witness:
  "fmlookup (data (store (newServer [] 0))) ''n'' = None
   \<and> is_GET noCase ''KV/1.0 GET n\<newline>'' ''n''
   \<and> is_PUT noCase ''KV/1.0 PUT n 1\<newline>'' ''n'' ''1''
   \<and> is_PUT noCase ''KV/1.0 PUT n 2\<newline>'' ''n'' ''2''
   \<and> wr (snd (serve noCase (newServer [] 0) (newConn [])
        [(0, ''KV/1.0 GET n\<newline>''), (0, ''KV/1.0 PUT n 1\<newline>''), (0, ''KV/1.0 PUT n 2\<newline>'')]))
      = ''404 NOT_FOUND\<newline>201 CREATED\<newline>200 OK\<newline>''"
  using C2_existence_signalling [of "newServer [] 0" "''n''" noCase "''KV/1.0 GET n\<newline>''"
      "''KV/1.0 PUT n 1\<newline>''" "''1''" "''KV/1.0 PUT n 2\<newline>''" "''2''" "newConn []" 0 0 0
      "store (newServer [] 0)" "''n''" "''1''"]
  by (simp add: eval_body eval_strings eval_server)

subsection \<open>C3: deleting a key\<close>

lemma del_size:
  assumes "fmlookup (data s) k \<noteq> None"
  shows "Suc (store_size (fst (del s k))) = store_size s"
proof -
  from assms have "k |\<in>| fmdom (data s)" by (auto simp: fmlookup_dom_iff)
  then have "Suc (fcard (fmdom (data s) |-| {|k|})) = fcard (fmdom (data s))"
    by (rule fcard_Suc_fminus1)
  with assms show ?thesis by (simp add: del_def store_size_def)
qed

text \<open>
  C3. For a key that is in the store, \<open>DEL(k)\<close> is answered \<open>204 NO_CONTENT\<close> and the
  size of the store goes down by exactly one; the same \<open>DEL(k)\<close> right after it is
  answered \<open>404 NOT_FOUND\<close> and leaves the size as it is.
\<close>

theorem C3_del:
  assumes "fmlookup (data (store sv)) k \<noteq> None" and "is_DEL T l1 k" and "is_DEL T l2 k"
  shows "wr (snd (serve T sv c [(u1, l1), (u2, l2)])) =
      wr c @ ''204 NO_CONTENT\<newline>'' @ ''404 NOT_FOUND\<newline>''
    \<and> Suc (store_size (store (fst (serve T sv c [(u1, l1)])))) = store_size (store sv)
    \<and> store_size (store (fst (serve T sv c [(u1, l1), (u2, l2)]))) =
        store_size (store (fst (serve T sv c [(u1, l1)])))"
proof -
  let ?sv1 = "incr DelCount_update 1 (incr ReqCount_update 1 sv\<lparr>store := fst (del (store sv) k)\<rparr>)"
  let ?c1 = "writeResp c ''204 NO_CONTENT\<newline>''"
  let ?sv2 = "incr ReqCount_update 1 ?sv1\<lparr>store := fst (del (store ?sv1) k)\<rparr>"
  let ?c2 = "writeResp ?c1 ''404 NOT_FOUND\<newline>''"
  from assms(1) have hit: "snd (del (store sv) k)" by (simp add: del_def)
  have one: "serve T sv c ((u1, l1) # rs) = serve T ?sv1 ?c1 rs" for rs
    by (simp only: serve_DEL [OF assms(2)] hit if_True)
  from assms(1) have gone: "fmlookup (data (store ?sv1)) k = None"
    by (simp add: store_incr del_def)
  then have miss: "\<not> snd (del (store ?sv1) k)" and same: "fst (del (store ?sv1) k) = store ?sv1"
    by (simp_all add: del_def)
  have two: "serve T ?sv1 ?c1 ((u2, l2) # rs) = serve T ?sv2 ?c2 rs" for rs
    by (simp only: serve_DEL [OF assms(3)] miss if_False)
  have r2: "serve T sv c [(u1, l1), (u2, l2)] = (?sv2, ?c2)"
    by (simp only: one two serve.simps(1))
  have r1: "serve T sv c [(u1, l1)] = (?sv1, ?c1)"
    by (simp only: one serve.simps(1))
  have s1: "store ?sv1 = fst (del (store sv) k)" by (simp add: store_incr)
  have s2: "store ?sv2 = store ?sv1" using same by (simp add: store_incr)
  from del_size [OF assms(1)] show ?thesis
    unfolding r1 r2 fst_conv snd_conv s2 unfolding s1 by (simp add: writeResp_def)
qed

text \<open>A store with the keys \<open>a\<close> and \<open>b\<close>, and \<open>a\<close> deleted twice.\<close>

theorem C3_witness:
  "fmlookup (data (store (newServer [] 0\<lparr>store := \<lparr>data = fmupd ''b'' ''2'' (fmupd ''a'' ''1'' fmempty)\<rparr>\<rparr>)))
      ''a'' \<noteq> None
   \<and> is_DEL noCase ''KV/1.0 DEL a\<newline>'' ''a''
   \<and> is_DEL noCase ''KV/1.0 del a\<newline>'' ''a''
   \<and> store_size (store (newServer [] 0\<lparr>store := \<lparr>data = fmupd ''b'' ''2'' (fmupd ''a'' ''1'' fmempty)\<rparr>\<rparr>)) = 2
   \<and> store_size (store (fst (serve noCase
        (newServer [] 0\<lparr>store := \<lparr>data = fmupd ''b'' ''2'' (fmupd ''a'' ''1'' fmempty)\<rparr>\<rparr>) (newConn [])
        [(0, ''KV/1.0 DEL a\<newline>''), (0, ''KV/1.0 del a\<newline>'')]))) = 1
   \<and> wr (snd (serve noCase
        (newServer [] 0\<lparr>store := \<lparr>data = fmupd ''b'' ''2'' (fmupd ''a'' ''1'' fmempty)\<rparr>\<rparr>) (newConn [])
        [(0, ''KV/1.0 DEL a\<newline>''), (0, ''KV/1.0 del a\<newline>'')]))
      = ''204 NO_CONTENT\<newline>404 NOT_FOUND\<newline>''"
  using C3_del [of "newServer [] 0\<lparr>store := \<lparr>data = fmupd ''b'' ''2'' (fmupd ''a'' ''1'' fmempty)\<rparr>\<rparr>"
      "''a''" noCase "''KV/1.0 DEL a\<newline>''" "''KV/1.0 del a\<newline>''" "newConn []" 0 0]
  by (simp add: eval_body eval_strings eval_server fcard_finsert_if)

subsection \<open>C4: the number of tokens\<close>

text \<open>
  C4, as the code has it. On a line with the right version token the server answers
  \<open>400 BAD_REQUEST\<close> (these bytes are appended to what is written on the
  connection) and leaves the store as it is when the command is \<open>PUT\<close> and
  there are fewer than 4 tokens, when it is \<open>GET\<close> or \<open>DEL\<close> and there are not exactly
  3, and when it is \<open>STATS\<close> and there are not exactly 2; so \<open>KV/1.0 PUT onlykey\<close> is
  answered \<open>400 BAD_REQUEST\<close>. \<open>QUIT\<close> is never refused for the number of its tokens:
  it is answered \<open>200 OK bye\<close>, the store as it is. (A \<open>PUT\<close> with more than 4 tokens is
  run: see C8.)
\<close>

theorem C4_arity_enforcement:
  assumes "2 \<le> length (tokens line)" and "tokens line ! 0 = Version"
  shows "((ToUpper T (tokens line ! 1) = ''PUT'' \<and> length (tokens line) < 4)
        \<or> (ToUpper T (tokens line ! 1) = ''GET'' \<and> length (tokens line) \<noteq> 3)
        \<or> (ToUpper T (tokens line ! 1) = ''DEL'' \<and> length (tokens line) \<noteq> 3)
        \<or> (ToUpper T (tokens line ! 1) = ''STATS'' \<and> length (tokens line) \<noteq> 2)
      \<longrightarrow> wr (snd (fst (handleConn_body T u sv c line))) = wr c @ ''400 BAD_REQUEST\<newline>''
        \<and> snd (fst (handleConn_body T u sv c line)) = writeResp c ''400 BAD_REQUEST\<newline>''
        \<and> store (fst (fst (handleConn_body T u sv c line))) = store sv
        \<and> snd (handleConn_body T u sv c line) = Continue)
    \<and> (ToUpper T (tokens line ! 1) = ''QUIT''
      \<longrightarrow> wr (snd (fst (handleConn_body T u sv c line))) = wr c @ ''200 OK bye\<newline>''
        \<and> snd (fst (handleConn_body T u sv c line)) = writeResp c ''200 OK bye\<newline>''
        \<and> store (fst (fst (handleConn_body T u sv c line))) = store sv
        \<and> snd (handleConn_body T u sv c line) = Return)
    \<and> wr (snd (fst (handleConn_body T u sv c ''KV/1.0 PUT onlykey\<newline>''))) =
        wr c @ ''400 BAD_REQUEST\<newline>''
    \<and> snd (fst (handleConn_body T u sv c ''KV/1.0 PUT onlykey\<newline>'')) =
        writeResp c ''400 BAD_REQUEST\<newline>''
    \<and> store (fst (fst (handleConn_body T u sv c ''KV/1.0 PUT onlykey\<newline>''))) = store sv"
proof -
  have w: "wr (writeResp c s) = wr c @ s" for s
    by (simp add: writeResp_def)
  have "2 \<le> length (tokens ''KV/1.0 PUT onlykey\<newline>'')"
    and "tokens ''KV/1.0 PUT onlykey\<newline>'' ! 0 = Version"
    and "ToUpper T (tokens ''KV/1.0 PUT onlykey\<newline>'' ! 1) = ''PUT''"
    and "length (tokens ''KV/1.0 PUT onlykey\<newline>'') < 4"
    by (simp_all add: eval_strings)
  then have "handleConn_body T u sv c ''KV/1.0 PUT onlykey\<newline>'' =
      ((incr ReqCount_update 1 sv, writeResp c ''400 BAD_REQUEST\<newline>''), Continue)"
    by (rule body_PUT_short)
  with assms show ?thesis
    by (auto simp add: body_PUT_short body_GET_arity body_DEL_arity body_STATS_arity body_QUIT
        store_incr w)
qed

text \<open>
  A \<open>GET\<close> with two arguments, a \<open>QUIT\<close> with one, and the \<open>PUT\<close> with no value.
\<close>

theorem C4_witness:
  "2 \<le> length (tokens ''KV/1.0 get a b\<newline>'') \<and> tokens ''KV/1.0 get a b\<newline>'' ! 0 = Version
   \<and> ToUpper noCase (tokens ''KV/1.0 get a b\<newline>'' ! 1) = ''GET''
   \<and> length (tokens ''KV/1.0 get a b\<newline>'') \<noteq> 3
   \<and> wr (snd (fst (handleConn_body noCase 0 (newServer [] 0) (newConn []) ''KV/1.0 get a b\<newline>''))) =
        ''400 BAD_REQUEST\<newline>''
   \<and> store (fst (fst (handleConn_body noCase 0 (newServer [] 0) (newConn []) ''KV/1.0 get a b\<newline>'')))
       = store (newServer [] 0)
   \<and> 2 \<le> length (tokens ''KV/1.0 QUIT now\<newline>'') \<and> tokens ''KV/1.0 QUIT now\<newline>'' ! 0 = Version
   \<and> ToUpper noCase (tokens ''KV/1.0 QUIT now\<newline>'' ! 1) = ''QUIT''
   \<and> wr (snd (fst (handleConn_body noCase 0 (newServer [] 0) (newConn []) ''KV/1.0 QUIT now\<newline>''))) =
        ''200 OK bye\<newline>''
   \<and> snd (handleConn_body noCase 0 (newServer [] 0) (newConn []) ''KV/1.0 QUIT now\<newline>'') = Return
   \<and> wr (snd (fst (handleConn_body noCase 0 (newServer [] 0) (newConn []) ''KV/1.0 PUT onlykey\<newline>''))) =
        ''400 BAD_REQUEST\<newline>''"
proof -
  have written:
    "wr (snd (fst (handleConn_body noCase 0 (newServer [] 0) (newConn []) ''KV/1.0 get a b\<newline>'')))
      = ''400 BAD_REQUEST\<newline>''"
    "wr (snd (fst (handleConn_body noCase 0 (newServer [] 0) (newConn []) ''KV/1.0 QUIT now\<newline>'')))
      = ''200 OK bye\<newline>''"
    "wr (snd (fst (handleConn_body noCase 0 (newServer [] 0) (newConn []) ''KV/1.0 PUT onlykey\<newline>'')))
      = ''400 BAD_REQUEST\<newline>''"
    by (simp_all add: eval_body eval_strings eval_server)
  from C4_arity_enforcement [of "''KV/1.0 get a b\<newline>''" noCase 0 "newServer [] 0" "newConn []"]
    C4_arity_enforcement [of "''KV/1.0 QUIT now\<newline>''" noCase 0 "newServer [] 0" "newConn []"]
    written
  show ?thesis
    by (simp add: eval_strings newConn_def writeResp_def)
qed

text \<open>
  C4 as the specification states it asks for \<open>400 BAD_REQUEST\<close> whenever a \<open>PUT\<close> has
  not exactly 4 tokens or a \<open>QUIT\<close> not exactly 2. A \<open>PUT\<close> with 5 tokens is answered
  \<open>201 CREATED\<close> and changes the store; a \<open>QUIT\<close> with 3 tokens is answered
  \<open>200 OK bye\<close>.
\<close>

theorem C4_counterexample:
  "tokens ''KV/1.0 PUT k v extra\<newline>'' ! 0 = Version
   \<and> ToUpper noCase (tokens ''KV/1.0 PUT k v extra\<newline>'' ! 1) = ''PUT''
   \<and> length (tokens ''KV/1.0 PUT k v extra\<newline>'') \<noteq> 4
   \<and> wr (snd (fst (handleConn_body noCase 0 (newServer [] 0) (newConn [])
        ''KV/1.0 PUT k v extra\<newline>''))) = ''201 CREATED\<newline>''
   \<and> store (fst (fst (handleConn_body noCase 0 (newServer [] 0) (newConn [])
        ''KV/1.0 PUT k v extra\<newline>''))) \<noteq> store (newServer [] 0)
   \<and> tokens ''KV/1.0 QUIT now\<newline>'' ! 0 = Version
   \<and> ToUpper noCase (tokens ''KV/1.0 QUIT now\<newline>'' ! 1) = ''QUIT''
   \<and> length (tokens ''KV/1.0 QUIT now\<newline>'') \<noteq> 2
   \<and> wr (snd (fst (handleConn_body noCase 0 (newServer [] 0) (newConn [])
        ''KV/1.0 QUIT now\<newline>''))) = ''200 OK bye\<newline>''"
  by (simp add: eval_body eval_strings eval_server)

subsection \<open>C5: the counters\<close>

text \<open>
  What a sequence of requests does to the store and to the three counters of commands.
\<close>

lemma serve_counts:
  "data (store (fst (serve T sv c reqs))) = live_entries T (data (store sv)) (map snd reqs)
   \<and> PutCount (stats (fst (serve T sv c reqs))) =
       PutCount (stats sv) + of_nat (put_total T (map snd reqs))
   \<and> GetCount (stats (fst (serve T sv c reqs))) =
       GetCount (stats sv) + of_nat (get_hits T (data (store sv)) (map snd reqs))
   \<and> DelCount (stats (fst (serve T sv c reqs))) =
       DelCount (stats sv) + of_nat (del_hits T (data (store sv)) (map snd reqs))"
proof (induction reqs arbitrary: sv c)
  case Nil
  then show ?case by (simp add: put_total_def)
next
  case (Cons r reqs)
  obtain u line where r: "r = (u, line)" by (cases r)
  obtain sv1 c1 fl where b: "handleConn_body T u sv c line = ((sv1, c1), fl)"
    by (metis surj_pair)
  have s: "serve T sv c (r # reqs) = serve T sv1 c1 reqs"
    by (simp add: r b)
  note st = body_step [OF b]
  from Cons.IH [of sv1 c1] show ?case
    unfolding s by (simp add: r st put_total_def)
qed

text \<open>
  The value of an \<open>int64\<close> counter that has counted \<open>n\<close> events, below the wrap.
\<close>

lemma sint_counter: "n < 2 ^ 63 \<Longrightarrow> sint (word_of_nat n :: 64 word) = int n"
proof -
  assume "n < 2 ^ 63"
  then have "int n < 2 ^ 63" by (metis of_nat_less_iff of_nat_numeral of_nat_power)
  moreover have "- (2 ^ 63) \<le> int n" by (rule order_trans [of _ 0]) simp_all
  ultimately have "signed_take_bit 63 (int n) = int n"
    by (simp add: signed_take_bit_int_eq_self)
  then show ?thesis by (simp add: signed_of_nat)
qed


text \<open>
  C5, as the code has it. After any sequence of requests, with \<open>N\<close> the number of
  \<open>PUT\<close> lines the server runs, \<open>M\<close> the number of \<open>GET\<close>s that hit and \<open>D\<close> the
  number of \<open>DEL\<close>s that hit, a \<open>STATS\<close> request is answered with the snapshot in which
  \<open>put_count\<close>, \<open>get_count\<close> and \<open>del_count\<close> are the counts before the sequence plus
  \<open>N\<close>, \<open>M\<close> and \<open>D\<close> in \<open>int64\<close> arithmetic, and \<open>keys\<close> is the number of live
  keys. From counters at 0 they are \<open>N\<close>, \<open>M\<close> and \<open>D\<close> themselves as long as these are
  below \<open>2^63\<close>. A request that is no \<open>PUT\<close> the server runs, no \<open>GET\<close> that hits and
  no \<open>DEL\<close> that hits adds nothing to \<open>N\<close>, \<open>M\<close>, \<open>D\<close>, hence nothing to the counters.
\<close>

theorem C5_exact_counters:
  assumes "is_STATS T ls"
  shows "handleConn_body T u (fst (serve T sv c reqs)) (snd (serve T sv c reqs)) ls =
      ((incr ReqCount_update 1 (fst (serve T sv c reqs)),
        writeResp (snd (serve T sv c reqs))
          (''200 OK ''
            @ json_Marshal (snapshotStats u (incr ReqCount_update 1 (fst (serve T sv c reqs))))
            @ ''\<newline>'')),
       Continue)
    \<and> map_of (snapshotStats u (incr ReqCount_update 1 (fst (serve T sv c reqs)))) ''put_count'' =
        Some (AnyInt64 (PutCount (stats sv) + of_nat (put_total T (map snd reqs))))
    \<and> map_of (snapshotStats u (incr ReqCount_update 1 (fst (serve T sv c reqs)))) ''get_count'' =
        Some (AnyInt64 (GetCount (stats sv)
          + of_nat (get_hits T (data (store sv)) (map snd reqs))))
    \<and> map_of (snapshotStats u (incr ReqCount_update 1 (fst (serve T sv c reqs)))) ''del_count'' =
        Some (AnyInt64 (DelCount (stats sv)
          + of_nat (del_hits T (data (store sv)) (map snd reqs))))
    \<and> map_of (snapshotStats u (incr ReqCount_update 1 (fst (serve T sv c reqs)))) ''keys'' =
        Some (AnyInt (int (fcard (fmdom (live_entries T (data (store sv)) (map snd reqs))))))
    \<and> (PutCount (stats sv) = 0 \<and> put_total T (map snd reqs) < 2 ^ 63 \<longrightarrow>
         sint (PutCount (stats (fst (serve T sv c reqs)))) = int (put_total T (map snd reqs)))
    \<and> (GetCount (stats sv) = 0 \<and> get_hits T (data (store sv)) (map snd reqs) < 2 ^ 63 \<longrightarrow>
         sint (GetCount (stats (fst (serve T sv c reqs)))) =
           int (get_hits T (data (store sv)) (map snd reqs)))
    \<and> (DelCount (stats sv) = 0 \<and> del_hits T (data (store sv)) (map snd reqs) < 2 ^ 63 \<longrightarrow>
         sint (DelCount (stats (fst (serve T sv c reqs)))) =
           int (del_hits T (data (store sv)) (map snd reqs)))"
proof -
  let ?sv' = "fst (serve T sv c reqs)"
  note cnt = serve_counts [of T sv c reqs]
  have snap: "map_of (snapshotStats u (incr ReqCount_update 1 ?sv')) ''put_count'' =
        Some (AnyInt64 (PutCount (stats ?sv')))"
      "map_of (snapshotStats u (incr ReqCount_update 1 ?sv')) ''get_count'' =
        Some (AnyInt64 (GetCount (stats ?sv')))"
      "map_of (snapshotStats u (incr ReqCount_update 1 ?sv')) ''del_count'' =
        Some (AnyInt64 (DelCount (stats ?sv')))"
      "map_of (snapshotStats u (incr ReqCount_update 1 ?sv')) ''keys'' =
        Some (AnyInt (int (fcard (fmdom (data (store ?sv'))))))"
    by (simp_all add: snapshotStats_def incr_def store_size_def)
  have signed: "PutCount (stats sv) = 0 \<and> put_total T (map snd reqs) < 2 ^ 63 \<longrightarrow>
         sint (PutCount (stats ?sv')) = int (put_total T (map snd reqs))"
      "GetCount (stats sv) = 0 \<and> get_hits T (data (store sv)) (map snd reqs) < 2 ^ 63 \<longrightarrow>
         sint (GetCount (stats ?sv')) = int (get_hits T (data (store sv)) (map snd reqs))"
      "DelCount (stats sv) = 0 \<and> del_hits T (data (store sv)) (map snd reqs) < 2 ^ 63 \<longrightarrow>
         sint (DelCount (stats ?sv')) = int (del_hits T (data (store sv)) (map snd reqs))"
    using cnt by (auto simp add: sint_counter)
  show ?thesis
    unfolding snap using cnt signed by (simp add: body_STATS [OF assms])
qed

text \<open>
  Ten lines on a new server: three \<open>PUT\<close>s that run (one with a fifth token) and one
  refused, a \<open>GET\<close> that hits and one that misses, a \<open>DEL\<close> that hits and one that
  misses, a line with a wrong version and an empty line.
\<close>

theorem C5_witness:
  "is_STATS noCase ''KV/1.0 stats\<newline>''
   \<and> put_total noCase
        [''KV/1.0 PUT a 1\<newline>'', ''KV/1.0 PUT b 2\<newline>'', ''KV/1.0 PUT a 3 more\<newline>'', ''KV/1.0 PUT c\<newline>'',
         ''KV/1.0 GET a\<newline>'', ''KV/1.0 GET z\<newline>'', ''KV/1.0 DEL b\<newline>'', ''KV/1.0 DEL b\<newline>'',
         ''KV/0.9 PUT d 4\<newline>'', ''\<newline>''] = 3
   \<and> get_hits noCase fmempty
        [''KV/1.0 PUT a 1\<newline>'', ''KV/1.0 PUT b 2\<newline>'', ''KV/1.0 PUT a 3 more\<newline>'', ''KV/1.0 PUT c\<newline>'',
         ''KV/1.0 GET a\<newline>'', ''KV/1.0 GET z\<newline>'', ''KV/1.0 DEL b\<newline>'', ''KV/1.0 DEL b\<newline>'',
         ''KV/0.9 PUT d 4\<newline>'', ''\<newline>''] = 1
   \<and> del_hits noCase fmempty
        [''KV/1.0 PUT a 1\<newline>'', ''KV/1.0 PUT b 2\<newline>'', ''KV/1.0 PUT a 3 more\<newline>'', ''KV/1.0 PUT c\<newline>'',
         ''KV/1.0 GET a\<newline>'', ''KV/1.0 GET z\<newline>'', ''KV/1.0 DEL b\<newline>'', ''KV/1.0 DEL b\<newline>'',
         ''KV/0.9 PUT d 4\<newline>'', ''\<newline>''] = 1
   \<and> map_of (snapshotStats 7 (incr ReqCount_update 1 (fst (serve noCase (newServer [] 0) (newConn [])
        [(0, ''KV/1.0 PUT a 1\<newline>''), (1, ''KV/1.0 PUT b 2\<newline>''), (2, ''KV/1.0 PUT a 3 more\<newline>''),
         (3, ''KV/1.0 PUT c\<newline>''), (4, ''KV/1.0 GET a\<newline>''), (4, ''KV/1.0 GET z\<newline>''),
         (5, ''KV/1.0 DEL b\<newline>''), (5, ''KV/1.0 DEL b\<newline>''), (6, ''KV/0.9 PUT d 4\<newline>''),
         (6, ''\<newline>'')])))) ''put_count'' = Some (AnyInt64 3)
   \<and> map_of (snapshotStats 7 (incr ReqCount_update 1 (fst (serve noCase (newServer [] 0) (newConn [])
        [(0, ''KV/1.0 PUT a 1\<newline>''), (1, ''KV/1.0 PUT b 2\<newline>''), (2, ''KV/1.0 PUT a 3 more\<newline>''),
         (3, ''KV/1.0 PUT c\<newline>''), (4, ''KV/1.0 GET a\<newline>''), (4, ''KV/1.0 GET z\<newline>''),
         (5, ''KV/1.0 DEL b\<newline>''), (5, ''KV/1.0 DEL b\<newline>''), (6, ''KV/0.9 PUT d 4\<newline>''),
         (6, ''\<newline>'')])))) ''keys'' = Some (AnyInt 1)
   \<and> map_of (snapshotStats 7 (incr ReqCount_update 1 (fst (serve noCase (newServer [] 0) (newConn [])
        [(0, ''KV/1.0 PUT a 1\<newline>''), (1, ''KV/1.0 PUT b 2\<newline>''), (2, ''KV/1.0 PUT a 3 more\<newline>''),
         (3, ''KV/1.0 PUT c\<newline>''), (4, ''KV/1.0 GET a\<newline>''), (4, ''KV/1.0 GET z\<newline>''),
         (5, ''KV/1.0 DEL b\<newline>''), (5, ''KV/1.0 DEL b\<newline>''), (6, ''KV/0.9 PUT d 4\<newline>''),
         (6, ''\<newline>'')])))) ''get_count'' = Some (AnyInt64 1)
   \<and> map_of (snapshotStats 7 (incr ReqCount_update 1 (fst (serve noCase (newServer [] 0) (newConn [])
        [(0, ''KV/1.0 PUT a 1\<newline>''), (1, ''KV/1.0 PUT b 2\<newline>''), (2, ''KV/1.0 PUT a 3 more\<newline>''),
         (3, ''KV/1.0 PUT c\<newline>''), (4, ''KV/1.0 GET a\<newline>''), (4, ''KV/1.0 GET z\<newline>''),
         (5, ''KV/1.0 DEL b\<newline>''), (5, ''KV/1.0 DEL b\<newline>''), (6, ''KV/0.9 PUT d 4\<newline>''),
         (6, ''\<newline>'')])))) ''del_count'' = Some (AnyInt64 1)
   \<and> sint (PutCount (stats (fst (serve noCase (newServer [] 0) (newConn [])
        [(0, ''KV/1.0 PUT a 1\<newline>''), (1, ''KV/1.0 PUT b 2\<newline>''), (2, ''KV/1.0 PUT a 3 more\<newline>''),
         (3, ''KV/1.0 PUT c\<newline>''), (4, ''KV/1.0 GET a\<newline>''), (4, ''KV/1.0 GET z\<newline>''),
         (5, ''KV/1.0 DEL b\<newline>''), (5, ''KV/1.0 DEL b\<newline>''), (6, ''KV/0.9 PUT d 4\<newline>''),
         (6, ''\<newline>'')])))) = 3"
proof -
  let ?T = noCase
  let ?reqs = "[(0::int, ''KV/1.0 PUT a 1\<newline>''), (1, ''KV/1.0 PUT b 2\<newline>''), (2, ''KV/1.0 PUT a 3 more\<newline>''),
         (3, ''KV/1.0 PUT c\<newline>''), (4, ''KV/1.0 GET a\<newline>''), (4, ''KV/1.0 GET z\<newline>''),
         (5, ''KV/1.0 DEL b\<newline>''), (5, ''KV/1.0 DEL b\<newline>''), (6, ''KV/0.9 PUT d 4\<newline>''),
         (6, ''\<newline>'')]"
  have h: "is_STATS ?T ''KV/1.0 stats\<newline>''" by (simp add: is_STATS_def eval_strings)
  have t: "tokens ''KV/1.0 PUT a 1\<newline>'' = [''KV/1.0'', ''PUT'', ''a'', ''1'']"
      "tokens ''KV/1.0 PUT b 2\<newline>'' = [''KV/1.0'', ''PUT'', ''b'', ''2'']"
      "tokens ''KV/1.0 PUT a 3 more\<newline>'' = [''KV/1.0'', ''PUT'', ''a'', ''3'', ''more'']"
      "tokens ''KV/1.0 PUT c\<newline>'' = [''KV/1.0'', ''PUT'', ''c'']"
      "tokens ''KV/1.0 GET a\<newline>'' = [''KV/1.0'', ''GET'', ''a'']"
      "tokens ''KV/1.0 GET z\<newline>'' = [''KV/1.0'', ''GET'', ''z'']"
      "tokens ''KV/1.0 DEL b\<newline>'' = [''KV/1.0'', ''DEL'', ''b'']"
      "tokens ''KV/0.9 PUT d 4\<newline>'' = [''KV/0.9'', ''PUT'', ''d'', ''4'']"
      "tokens ''\<newline>'' = []"
    by (simp_all add: tokens_def TrimRight_def Fields_def FieldsFunc_def DecodeRuneInString_def
        first_def IsSpace_def)
  have up: "ToUpper ?T ''PUT'' = ''PUT''" "ToUpper ?T ''GET'' = ''GET''" "ToUpper ?T ''DEL'' = ''DEL''"
    by (simp_all add: ToUpper_def strings_Map_def unicode_ToUpper_def EncodeRune_def
        DecodeRuneInString_def first_def RuneError_def char_of_eq_iff)
  let ?ls = "[''KV/1.0 PUT a 1\<newline>'', ''KV/1.0 PUT b 2\<newline>'', ''KV/1.0 PUT a 3 more\<newline>'', ''KV/1.0 PUT c\<newline>'',
         ''KV/1.0 GET a\<newline>'', ''KV/1.0 GET z\<newline>'', ''KV/1.0 DEL b\<newline>'', ''KV/1.0 DEL b\<newline>'',
         ''KV/0.9 PUT d 4\<newline>'', ''\<newline>'']"
  have n: "put_total ?T ?ls = 3"
    by (simp add: put_total_def put_req_def is_PUT_def t up Version_def)
  have m: "get_hits ?T fmempty ?ls = 1"
    by (simp add: get_req_def hit_def apply_request_def put_req_def del_req_def is_PUT_def
        is_GET_def is_DEL_def t up Version_def)
  have d: "del_hits ?T fmempty ?ls = 1"
    by (simp add: get_req_def hit_def apply_request_def put_req_def del_req_def is_PUT_def
        is_GET_def is_DEL_def t up Version_def)
  have l: "live_entries ?T fmempty ?ls = fmupd ''a'' ''3'' fmempty"
    by (rule fmap_ext)
      (simp add: apply_request_def put_req_def del_req_def is_PUT_def is_DEL_def t up Version_def)
  have z: "data (store (newServer [] 0)) = fmempty" "PutCount (stats (newServer [] 0)) = 0"
      "GetCount (stats (newServer [] 0)) = 0" "DelCount (stats (newServer [] 0)) = 0"
    by (simp_all add: newServer_def newStore_def)
  have ms: "map snd ?reqs = ?ls" by simp
  note th = C5_exact_counters [OF h, of 7 "newServer [] 0" "newConn []" ?reqs,
      unfolded ms z n m d l]
  from th h n m d show ?thesis
    by (simp add: fcard_finsert_if
        del: serve.simps get_hits.simps del_hits.simps live_entries.simps)
qed

lemma put_total_replicate:
  "put_req T l \<Longrightarrow> put_total T (map snd (replicate n (u, l))) = n"
  by (simp add: put_total_def)

text \<open>
  C5 as the specification states it has no bound on the counts, and its well-formed
  \<open>PUT\<close> has exactly 4 tokens. After \<open>2^63\<close> \<open>PUT\<close> lines on a new server,
  \<open>N = 2^63\<close>, and the counter \<open>put_count\<close> of the snapshot has wrapped to \<open>-2^63\<close>,
  printed \<open>-9223372036854775808\<close>. And a \<open>PUT\<close> line with 5 tokens is counted.
\<close>

theorem C5_counterexample:
  "put_total noCase (map snd (replicate (2 ^ 63) (0 :: int, ''KV/1.0 PUT k v\<newline>''))) = 2 ^ 63
   \<and> map_of (snapshotStats 0 (incr ReqCount_update 1 (fst (serve noCase (newServer [] 0)
        (newConn []) (replicate (2 ^ 63) (0, ''KV/1.0 PUT k v\<newline>'')))))) ''put_count''
      = Some (AnyInt64 (- (2 ^ 63)))
   \<and> sint (PutCount (stats (fst (serve noCase (newServer [] 0)
        (newConn []) (replicate (2 ^ 63) (0, ''KV/1.0 PUT k v\<newline>''))))))
      = - (2 ^ 63)
   \<and> json_value (AnyInt64 (- (2 ^ 63))) = ''-9223372036854775808''
   \<and> length (tokens ''KV/1.0 PUT k v extra\<newline>'') = 5
   \<and> map_of (snapshotStats 0 (incr ReqCount_update 1 (fst (serve noCase (newServer [] 0)
        (newConn []) [(0, ''KV/1.0 PUT k v extra\<newline>'')])))) ''put_count''
      = Some (AnyInt64 1)"
proof -
  let ?T = noCase
  let ?l = "''KV/1.0 PUT k v\<newline>''"
  let ?run = "serve ?T (newServer [] 0) (newConn []) (replicate (2 ^ 63) (0, ?l))"
  have pr: "put_req ?T ?l" by (simp add: put_req_def is_PUT_def eval_strings)
  have n: "put_total ?T (map snd (replicate (2 ^ 63) (0 :: int, ?l))) = 2 ^ 63"
    by (rule put_total_replicate [OF pr])
  have z: "PutCount (stats (newServer [] 0)) = 0" by (simp add: newServer_def)
  have "PutCount (stats (fst ?run)) = PutCount (stats (newServer [] 0))
      + of_nat (put_total ?T (map snd (replicate (2 ^ 63) (0 :: int, ?l))))"
    using serve_counts [of ?T "newServer [] 0" "newConn []" "replicate (2 ^ 63) (0, ?l)"]
    by (rule conjunct1 [OF conjunct2])
  then have pc: "PutCount (stats (fst ?run)) = of_nat (2 ^ 63)"
    by (simp only: n z add_0)
  have w: "(of_nat (2 ^ 63) :: 64 word) = - (2 ^ 63)" by simp
  have s: "sint (- (2 ^ 63) :: 64 word) = - (2 ^ 63)" by simp
  have sn: "map_of (snapshotStats 0 (incr ReqCount_update 1 (fst ?run))) ''put_count''
      = Some (AnyInt64 (PutCount (stats (fst ?run))))"
    by (simp add: snapshotStats_def incr_def)
  have j: "json_value (AnyInt64 (- (2 ^ 63))) = ''-9223372036854775808''"
    by (simp add: s FormatInt_def FormatUint.simps char_of_eq_iff)
  have x: "length (tokens ''KV/1.0 PUT k v extra\<newline>'') = 5"
      "map_of (snapshotStats 0 (incr ReqCount_update 1 (fst (serve noCase (newServer [] 0)
        (newConn []) [(0, ''KV/1.0 PUT k v extra\<newline>'')])))) ''put_count''
      = Some (AnyInt64 1)"
    by (simp_all add: eval_body eval_strings eval_server snapshotStats_def)
  from n sn pc w s j x show ?thesis by (simp only:) 
qed

subsection \<open>C6: the version token\<close>

text \<open>
  C6. A line with at least 2 tokens whose first token is not \<open>KV/1.0\<close> is answered
  \<open>426 UPGRADE_REQUIRED\<close> (these bytes are appended to what is written on the
  connection); the store is unchanged and none of \<open>put_count\<close>,
  \<open>get_count\<close>, \<open>del_count\<close> moves.
\<close>

theorem C6_version_gate:
  assumes "2 \<le> length (tokens line)" and "tokens line ! 0 \<noteq> Version"
    and "handleConn_body T u sv c line = ((sv', c'), fl)"
  shows "wr c' = wr c @ ''426 UPGRADE_REQUIRED\<newline>''
    \<and> c' = writeResp c ''426 UPGRADE_REQUIRED\<newline>'' \<and> fl = Continue
    \<and> store sv' = store sv
    \<and> PutCount (stats sv') = PutCount (stats sv)
    \<and> GetCount (stats sv') = GetCount (stats sv)
    \<and> DelCount (stats sv') = DelCount (stats sv)"
proof -
  from assms(3) have "sv' = incr ReqCount_update 1 sv"
    and c': "c' = writeResp c ''426 UPGRADE_REQUIRED\<newline>''" and "fl = Continue"
    by (simp_all add: body_version [OF assms(1,2)])
  moreover from c' have "wr c' = wr c @ ''426 UPGRADE_REQUIRED\<newline>''"
    by (simp add: writeResp_def)
  ultimately show ?thesis by (simp add: incr_def)
qed

text \<open>
  The line \<open>KV/0.9 GET x\<close>.
\<close>

theorem C6_witness:
  "2 \<le> length (tokens ''KV/0.9 GET x\<newline>'') \<and> tokens ''KV/0.9 GET x\<newline>'' ! 0 \<noteq> Version
   \<and> handleConn_body noCase 0 (newServer [] 0) (newConn []) ''KV/0.9 GET x\<newline>'' =
       ((incr ReqCount_update 1 (newServer [] 0),
         \<lparr>rd = [], wr = ''426 UPGRADE_REQUIRED\<newline>'', closed = False\<rparr>), Continue)
   \<and> wr (snd (fst (handleConn_body noCase 0 (newServer [] 0) (newConn []) ''KV/0.9 GET x\<newline>'')))
       = ''426 UPGRADE_REQUIRED\<newline>''"
  using C6_version_gate [of "''KV/0.9 GET x\<newline>''" noCase 0 "newServer [] 0" "newConn []"
      "incr ReqCount_update 1 (newServer [] 0)"
      "\<lparr>rd = [], wr = ''426 UPGRADE_REQUIRED\<newline>'', closed = False\<rparr>" Continue]
  by (simp add: eval_body eval_strings eval_server)

subsection \<open>C7: empty lines\<close>

text \<open>
  C7. A line the server reads that is empty once the trailing CR and LF are stripped: the
  body writes nothing and changes nothing in the server (no counter, the counter of
  requests included, and not the store), and the loop goes on with the next line.
\<close>

theorem C7_empty_line:
  assumes "ReadString (rd c) (CHR 0x0A) = (line, None, rest)"
    and "TrimRight line [CHR 0x0D, CHR 0x0A] = []"
  shows "handleConn_body T u sv k line = ((sv, k), Continue)
    \<and> handleConn_loop T clock i sv c = handleConn_loop T clock (Suc i) sv (c\<lparr>rd := rest\<rparr>)"
proof -
  have b: "handleConn_body T u sv k line = ((sv, k), Continue)" for u k
    by (rule body_blank [OF assms(2)])
  have "handleConn_loop T clock i sv c = handleConn_loop T clock (Suc i) sv (c\<lparr>rd := rest\<rparr>)"
    by (subst handleConn_loop.simps) (simp add: assms(1) b)
  with b show ?thesis by simp
qed

text \<open>
  An empty line followed by a request.
\<close>

theorem C7_witness:
  "ReadString (rd (newConn ''\<newline>KV/1.0 PUT a 1\<newline>'')) (CHR 0x0A) = (''\<newline>'', None, ''KV/1.0 PUT a 1\<newline>'')
   \<and> TrimRight ''\<newline>'' [CHR 0x0D, CHR 0x0A] = []
   \<and> handleConn_body noCase 0 (newServer [] 0) (newConn []) ''\<newline>'' =
        ((newServer [] 0, newConn []), Continue)
   \<and> handleConn_loop noCase clock0 0 (newServer [] 0) (newConn ''\<newline>KV/1.0 PUT a 1\<newline>'') =
       handleConn_loop noCase clock0 1 (newServer [] 0) (newConn ''KV/1.0 PUT a 1\<newline>'')"
  using C7_empty_line [of "newConn ''\<newline>KV/1.0 PUT a 1\<newline>''" "''\<newline>''" "''KV/1.0 PUT a 1\<newline>''"
      noCase 0 "newServer [] 0" "newConn []" clock0 0]
  by (simp add: ReadString_def TrimRight_def newConn_def)

subsection \<open>C8: a PUT with more tokens than four\<close>

text \<open>
  C8. A \<open>PUT\<close> line with the right version and 4 tokens or more stores token 3 under the
  key token 2 and is answered \<open>201 CREATED\<close> when the key was absent, \<open>200 OK\<close>
  otherwise (the bytes appended to what is written on the connection); the tokens after the fourth are dropped: a line with the same first four
  tokens does the same.
\<close>

theorem C8_put_extra_tokens:
  assumes "4 \<le> length (tokens line)" and "tokens line ! 0 = Version"
    and "ToUpper T (tokens line ! 1) = ''PUT''"
  shows "handleConn_body T u sv c line =
      ((incr PutCount_update 1 (incr ReqCount_update 1 sv
          \<lparr>store := (store sv)\<lparr>data := fmupd (tokens line ! 2) (tokens line ! 3) (data (store sv))\<rparr>\<rparr>),
        writeResp c (if fmlookup (data (store sv)) (tokens line ! 2) = None
          then ''201 CREATED\<newline>'' else ''200 OK\<newline>'')),
       Continue)
    \<and> wr (snd (fst (handleConn_body T u sv c line))) =
        wr c @ (if fmlookup (data (store sv)) (tokens line ! 2) = None
          then ''201 CREATED\<newline>'' else ''200 OK\<newline>'')
    \<and> data (store (fst (fst (handleConn_body T u sv c line)))) =
        fmupd (tokens line ! 2) (tokens line ! 3) (data (store sv))
    \<and> (4 \<le> length (tokens line') \<and> take 4 (tokens line') = take 4 (tokens line)
        \<longrightarrow> handleConn_body T u sv c line' = handleConn_body T u sv c line)"
proof -
  from assms have p: "is_PUT T line (tokens line ! 2) (tokens line ! 3)"
    by (simp add: is_PUT_def)
  have "handleConn_body T u sv c line' = handleConn_body T u sv c line"
    if len: "4 \<le> length (tokens line')" and tk: "take 4 (tokens line') = take 4 (tokens line)"
  proof -
    have "tokens line' ! i = tokens line ! i" if "i < 4" for i
      using that tk by (metis nth_take)
    then have "tokens line' ! 0 = tokens line ! 0" "tokens line' ! 1 = tokens line ! 1"
      "tokens line' ! 2 = tokens line ! 2" "tokens line' ! 3 = tokens line ! 3"
      by simp_all
    with assms len have "is_PUT T line' (tokens line ! 2) (tokens line ! 3)"
      by (simp add: is_PUT_def)
    from body_PUT [OF this] body_PUT [OF p] show ?thesis by simp
  qed
  with body_PUT [OF p] show ?thesis by (simp add: put_def writeResp_def store_incr)
qed

text \<open>
  A \<open>PUT\<close> with six tokens, on a new server and on one that has the key, and the same
  \<open>PUT\<close> with its first four tokens only.
\<close>

theorem C8_witness:
  "4 \<le> length (tokens ''KV/1.0 PUT motto carpe diem today\<newline>'')
   \<and> tokens ''KV/1.0 PUT motto carpe diem today\<newline>'' ! 0 = Version
   \<and> ToUpper noCase (tokens ''KV/1.0 PUT motto carpe diem today\<newline>'' ! 1) = ''PUT''
   \<and> length (tokens ''KV/1.0 PUT motto carpe diem today\<newline>'') = 6
   \<and> 4 \<le> length (tokens ''KV/1.0 PUT motto carpe\<newline>'')
   \<and> take 4 (tokens ''KV/1.0 PUT motto carpe\<newline>'')
       = take 4 (tokens ''KV/1.0 PUT motto carpe diem today\<newline>'')
   \<and> handleConn_body noCase 0 (newServer [] 0) (newConn []) ''KV/1.0 PUT motto carpe diem today\<newline>'' =
      ((incr PutCount_update 1 (incr ReqCount_update 1 (newServer [] 0)
          \<lparr>store := \<lparr>data = fmupd ''motto'' ''carpe'' fmempty\<rparr>\<rparr>),
        \<lparr>rd = [], wr = ''201 CREATED\<newline>'', closed = False\<rparr>), Continue)
   \<and> wr (snd (fst (handleConn_body noCase 0 (newServer [] 0) (newConn [])
        ''KV/1.0 PUT motto carpe diem today\<newline>''))) = ''201 CREATED\<newline>''
   \<and> wr (snd (fst (handleConn_body noCase 0
        (newServer [] 0\<lparr>store := \<lparr>data = fmupd ''motto'' ''old'' fmempty\<rparr>\<rparr>) (newConn [])
        ''KV/1.0 PUT motto carpe diem today\<newline>''))) = ''200 OK\<newline>''
   \<and> handleConn_body noCase 0 (newServer [] 0) (newConn []) ''KV/1.0 PUT motto carpe\<newline>'' =
      handleConn_body noCase 0 (newServer [] 0) (newConn []) ''KV/1.0 PUT motto carpe diem today\<newline>''"
  using C8_put_extra_tokens [where line = "''KV/1.0 PUT motto carpe diem today\<newline>''"
      and T = noCase and line' = "''KV/1.0 PUT motto carpe\<newline>''" and u = 0
      and sv = "newServer [] 0" and c = "newConn []"]
    C8_put_extra_tokens [where line = "''KV/1.0 PUT motto carpe diem today\<newline>''"
      and T = noCase and line' = "''KV/1.0 PUT motto carpe\<newline>''" and u = 0
      and sv = "newServer [] 0\<lparr>store := \<lparr>data = fmupd ''motto'' ''old'' fmempty\<rparr>\<rparr>"
      and c = "newConn []"]
  by (simp add: eval_strings eval_server)

subsection \<open>C9: lines of white space\<close>

text \<open>A string of ASCII white space bytes has only white space in it.\<close>

lemma range_string_ascii:
  assumes "of_char c < (0x80 :: nat)"
  shows "range_string (c # cs) = (of_char c, [c]) # range_string cs"
  using assms by (simp add: DecodeRuneInString_def first_def)

lemma only_space_ascii: "list_all asciiSpace s \<Longrightarrow> only_space s"
proof (induction s)
  case Nil
  then show ?case by (simp add: only_space_def)
next
  case (Cons c cs)
  then have c: "asciiSpace c" and cs: "only_space cs" by simp_all
  from c have lt: "of_char c < (0x80 :: nat)" and sp: "IsSpace (of_char c)"
    by (auto simp add: asciiSpace_def IsSpace_def)
  from cs sp show ?case
    by (simp add: only_space_def range_string_ascii [OF lt] del: range_string.simps)
qed

lemma FieldsFunc_loop_all:
  "list_all (\<lambda>(r, bs). f r) rs \<Longrightarrow> FieldsFunc_loop f rs None = []"
  by (induction rs) auto

lemma Fields_only_space: "only_space s \<Longrightarrow> Fields s = []"
  by (simp add: only_space_def Fields_def FieldsFunc_def FieldsFunc_loop_all)

text \<open>
  C9. A line that is not empty after the trailing CR and LF are stripped but has only white
  space in it has no tokens: the server counts the request and answers
  \<open>400 BAD_REQUEST\<close> (these bytes are appended to what is written on the connection).
\<close>

theorem C9_whitespace_line:
  assumes "TrimRight line [CHR 0x0D, CHR 0x0A] \<noteq> []"
    and "only_space (TrimRight line [CHR 0x0D, CHR 0x0A])"
  shows "tokens line = []
    \<and> handleConn_body T u sv c line =
        ((incr ReqCount_update 1 sv, writeResp c ''400 BAD_REQUEST\<newline>''), Continue)
    \<and> wr (snd (fst (handleConn_body T u sv c line))) = wr c @ ''400 BAD_REQUEST\<newline>''
    \<and> ReqCount (stats (fst (fst (handleConn_body T u sv c line)))) = ReqCount (stats sv) + 1
    \<and> ReqCount (stats (incr ReqCount_update 1 sv)) = ReqCount (stats sv) + 1"
proof -
  from assms(2) have t: "tokens line = []"
    by (simp add: tokens_def Fields_only_space)
  then have "length (tokens line) < 2" by simp
  from body_few [OF assms(1) this] t show ?thesis by (simp add: incr_def writeResp_def)
qed

text \<open>
  The line of a space, a tab, a no-break space (two bytes), a carriage return and a space,
  ended by CR LF.
\<close>

theorem C9_witness:
  "TrimRight ('' '' @ [CHR 0x09, CHR 0xC2, CHR 0xA0, CHR 0x0D] @ '' '' @ [CHR 0x0D, CHR 0x0A])
      [CHR 0x0D, CHR 0x0A] \<noteq> []
   \<and> only_space (TrimRight ('' '' @ [CHR 0x09, CHR 0xC2, CHR 0xA0, CHR 0x0D] @ '' '' @ [CHR 0x0D, CHR 0x0A])
      [CHR 0x0D, CHR 0x0A])
   \<and> handleConn_body noCase 0 (newServer [] 0) (newConn [])
        ('' '' @ [CHR 0x09, CHR 0xC2, CHR 0xA0, CHR 0x0D] @ '' '' @ [CHR 0x0D, CHR 0x0A]) =
        ((incr ReqCount_update 1 (newServer [] 0),
          \<lparr>rd = [], wr = ''400 BAD_REQUEST\<newline>'', closed = False\<rparr>), Continue)
   \<and> wr (snd (fst (handleConn_body noCase 0 (newServer [] 0) (newConn [])
        ('' '' @ [CHR 0x09, CHR 0xC2, CHR 0xA0, CHR 0x0D] @ '' '' @ [CHR 0x0D, CHR 0x0A]))))
       = ''400 BAD_REQUEST\<newline>''
   \<and> ReqCount (stats (fst (fst (handleConn_body noCase 0 (newServer [] 0) (newConn [])
        ('' '' @ [CHR 0x09, CHR 0xC2, CHR 0xA0, CHR 0x0D] @ '' '' @ [CHR 0x0D, CHR 0x0A]))))) = 1"
  using C9_whitespace_line [of "'' '' @ [CHR 0x09, CHR 0xC2, CHR 0xA0, CHR 0x0D] @ '' '' @ [CHR 0x0D, CHR 0x0A]"
      noCase 0 "newServer [] 0" "newConn []"]
  by (simp add: only_space_def TrimRight_def DecodeRuneInString_def first_def acceptRanges_def
      IsSpace_def eval_server)

subsection \<open>C10: reads leave the store alone\<close>

text \<open>
  C10. Serving a \<open>GET\<close> line (hit or miss) or a \<open>STATS\<close> line leaves the store, its map
  and the number of its keys as they were. (\<open>get\<close> and \<open>snapshotStats\<close> return no
  store: in the model a read cannot change it.)
\<close>

theorem C10_read_only:
  assumes "is_GET T line k \<or> is_STATS T line"
  shows "store (fst (fst (handleConn_body T u sv c line))) = store sv
    \<and> data (store (fst (fst (handleConn_body T u sv c line)))) = data (store sv)
    \<and> store_size (store (fst (fst (handleConn_body T u sv c line)))) = store_size (store sv)"
proof -
  have "store (fst (fst (handleConn_body T u sv c line))) = store sv"
    using assms
  proof
    assume "is_GET T line k"
    from body_GET [OF this] show ?thesis by (simp add: store_incr)
  next
    assume "is_STATS T line"
    from body_STATS [OF this] show ?thesis by (simp add: store_incr)
  qed
  then show ?thesis by simp
qed

text \<open>
  A \<open>GET\<close> that hits and a \<open>STATS\<close> on a store with one key.
\<close>

theorem C10_witness:
  "(is_GET noCase ''KV/1.0 GET a\<newline>'' ''a'' \<or> is_STATS noCase ''KV/1.0 GET a\<newline>'')
   \<and> (is_GET noCase ''KV/1.0 STATS\<newline>'' ''a'' \<or> is_STATS noCase ''KV/1.0 STATS\<newline>'')
   \<and> data (store (fst (fst (handleConn_body noCase 0
        (newServer [] 0\<lparr>store := \<lparr>data = fmupd ''a'' ''1'' fmempty\<rparr>\<rparr>) (newConn [])
        ''KV/1.0 GET a\<newline>''))))
      = fmupd ''a'' ''1'' fmempty
   \<and> data (store (fst (fst (handleConn_body noCase 0
        (newServer [] 0\<lparr>store := \<lparr>data = fmupd ''a'' ''1'' fmempty\<rparr>\<rparr>) (newConn [])
        ''KV/1.0 STATS\<newline>''))))
      = fmupd ''a'' ''1'' fmempty"
  using C10_read_only [of noCase "''KV/1.0 GET a\<newline>''" "''a''" 0
      "newServer [] 0\<lparr>store := \<lparr>data = fmupd ''a'' ''1'' fmempty\<rparr>\<rparr>" "newConn []"]
    C10_read_only [of noCase "''KV/1.0 STATS\<newline>''" "''a''" 0
      "newServer [] 0\<lparr>store := \<lparr>data = fmupd ''a'' ''1'' fmempty\<rparr>\<rparr>" "newConn []"]
  by (simp add: is_GET_def is_STATS_def eval_strings eval_server)

end
